theory Spec2Isabelle
  imports Main "HOL-Library.AList" "HOL-Library.Sublist"
begin

section \<open>Reminder scheduling of the to-do list application (first\_to\_do\_list.py)\<close>

text \<open>
  The theory embeds the reminder subsystem of \<^verbatim>\<open>TodoApp\<close>: the in-memory store
  \<^verbatim>\<open>self.lists\<close>, the job store of the background scheduler, and the methods that
  touch both. Python strings are byte lists (UTF-8), so the em dash of the notification
  title and the check mark of "mark done" are three bytes each. A dict is an association
  list in insertion order with \<^const>\<open>AList.update\<close> for item assignment (an existing key
  keeps its place, a new key goes last), which is the order \<^verbatim>\<open>items()\<close> iterates in.
\<close>

subsection \<open>Strings\<close>

text \<open>\<^verbatim>\<open>str.replace(old, new)\<close>: every non-overlapping occurrence, leftmost first; an empty
  \<^verbatim>\<open>old\<close> matches before every character and at the end.\<close>

function str_replace :: "string \<Rightarrow> string \<Rightarrow> string \<Rightarrow> string" where
  "str_replace old new [] = (if old = [] then new else [])"
| "str_replace old new (c # cs) =
     (if old = [] then new @ c # str_replace old new cs
      else if prefix old (c # cs)
        then new @ str_replace old new (drop (length old) (c # cs))
      else c # str_replace old new cs)"
  by pat_completeness auto
termination
  by (relation "measure (\<lambda>(old, new, s). length s)") (auto simp: Suc_le_eq)

text \<open>\<^verbatim>\<open>sep.join(xs)\<close>.\<close>

fun str_join :: "string \<Rightarrow> string list \<Rightarrow> string" where
  "str_join sep [] = []"
| "str_join sep [x] = x"
| "str_join sep (x # y # ys) = x @ sep @ str_join sep (y # ys)"

subsection \<open>Data model\<close>

text \<open>A naive local \<^verbatim>\<open>datetime\<close> is counted in microseconds from \<^verbatim>\<open>datetime.min\<close>. The
  datetime the user picks and the value of \<^verbatim>\<open>datetime.now()\<close> are naive. A string of the
  file may also parse to an offset-aware datetime, which Python refuses to compare with a
  naive one.\<close>

type_synonym naive = nat

datatype datetime = Naive naive | Aware nat

text \<open>\<^verbatim>\<open>datetime.isoformat\<close> and \<^verbatim>\<open>datetime.fromisoformat\<close> belong to Python's library; the
  methods that call them take them as the parameters \<open>isoformat\<close> (of the naive datetime
  the user picks) and \<open>fromisoformat\<close>, where \<open>fromisoformat s = None\<close> stands for the
  exception \<^verbatim>\<open>fromisoformat\<close> raises.\<close>

text \<open>One value of \<^verbatim>\<open>self.lists\<close>: \<^verbatim>\<open>{"tasks": [str], "reminder": iso_datetime_or_empty}\<close>.
  Every list carries both keys, as every list the application creates does, so the
  defaults of \<^verbatim>\<open>get("reminder", "")\<close> and \<^verbatim>\<open>get("tasks", [])\<close> are met for a missing list only.\<close>

record list_data =
  tasks :: "string list"
  reminder :: string

type_synonym store = "(string \<times> list_data) list"

datatype exn = KeyError | ValueError | TypeError | JobLookupError | ConflictingIdError | SchedulerError

text \<open>A pending job of the scheduler: its id, the \<^verbatim>\<open>run_date\<close> of its date trigger and,
  as \<open>bound_title\<close>, the \<^verbatim>\<open>list_title\<close> its \<^verbatim>\<open>notify\<close> closure has captured. The closure holds the title only;
  the tasks are read from the store when it runs.\<close>

record job =
  job_id :: string
  run_date :: datetime
  bound_title :: string

record notification =
  n_title :: string
  n_message :: string

text \<open>A \<^verbatim>\<open>QMessageBox\<close> shown to the user, identified by its kind and caption.\<close>

datatype dialog = Information string | Warning string

text \<open>
  The state of the application.
  \<^item> \<open>app_lists\<close>: \<^verbatim>\<open>self.lists\<close>.
  \<^item> \<open>scheduler\<close>: the jobs pending in \<^verbatim>\<open>self.scheduler\<close>.
  \<^item> \<open>add_job_faults\<close>: what the scheduler library does on the coming calls of
    \<^verbatim>\<open>add_job\<close>, one entry per call: \<open>None\<close> (and an exhausted list) lets the call behave
    as the in-memory job store does, \<open>Some e\<close> makes it raise \<open>e\<close>. This is the
    environment's input; the code's \<^verbatim>\<open>except\<close> clauses around \<^verbatim>\<open>add_job\<close> exist for it.
  \<^item> \<open>notifications\<close>: every call of \<^verbatim>\<open>Notify.send\<close>, with whether it returned normally.
  \<^item> \<open>saved\<close>: the store last written in full to \<^verbatim>\<open>DATA_FILE\<close> by \<^verbatim>\<open>_save_data\<close>.
  \<^item> \<open>dialogs\<close>: the message boxes shown so far.
  The text of the labels and list widgets is display only and is not part of the state;
  the selected sidebar item is an argument of each method that reads it.
\<close>

record app =
  app_lists :: store
  scheduler :: "job list"
  add_job_faults :: "exn option list"
  notifications :: "(notification \<times> bool) list"
  saved :: "store option"
  dialogs :: "dialog list"

definition show_dialog :: "dialog \<Rightarrow> app \<Rightarrow> app" where
  "show_dialog d st = st\<lparr>dialogs := dialogs st @ [d]\<rparr>"

subsection \<open>The scheduler library\<close>

text \<open>\<^verbatim>\<open>BackgroundScheduler\<close> with its in-memory job store, as the application uses it:
  \<^verbatim>\<open>get_job\<close> returns the job or \<^verbatim>\<open>None\<close>, \<^verbatim>\<open>remove_job\<close> raises \<^verbatim>\<open>JobLookupError\<close> for an
  unknown id, \<^verbatim>\<open>add_job\<close> raises \<^verbatim>\<open>ConflictingIdError\<close> for an id that is pending.\<close>

definition get_job :: "string \<Rightarrow> app \<Rightarrow> job option" where
  "get_job jid st = find (\<lambda>j. job_id j = jid) (scheduler st)"

fun remove_first :: "string \<Rightarrow> job list \<Rightarrow> job list" where
  "remove_first jid [] = []"
| "remove_first jid (j # js) = (if job_id j = jid then js else j # remove_first jid js)"

definition remove_job :: "string \<Rightarrow> app \<Rightarrow> exn option \<times> app" where
  "remove_job jid st =
     (case get_job jid st of
        None \<Rightarrow> (Some JobLookupError, st)
      | Some _ \<Rightarrow> (None, st\<lparr>scheduler := remove_first jid (scheduler st)\<rparr>))"

definition add_job :: "job \<Rightarrow> app \<Rightarrow> exn option \<times> app" where
  "add_job j st =
     (case add_job_faults st of
        Some e # fs \<Rightarrow> (Some e, st\<lparr>add_job_faults := fs\<rparr>)
      | _ \<Rightarrow>
        (let st1 = st\<lparr>add_job_faults := tl (add_job_faults st)\<rparr>
         in case get_job (job_id j) st1 of
              Some _ \<Rightarrow> (Some ConflictingIdError, st1)
            | None \<Rightarrow> (None, st1\<lparr>scheduler := scheduler st1 @ [j]\<rparr>)))"

subsection \<open>Data management\<close>

text \<open>\<^verbatim>\<open>_save_data\<close>: \<open>write_ok\<close> is whether opening and writing the file went through;
  the exception of a failed write is caught and shown as a warning.\<close>

definition save_data :: "bool \<Rightarrow> app \<Rightarrow> app" where
  "save_data write_ok st =
     (if write_ok
      then show_dialog (Information ''Saved'') (st\<lparr>saved := Some (app_lists st)\<rparr>)
      else show_dialog (Warning ''Save Error'') st)"

text \<open>\<^verbatim>\<open>self.lists[title]["reminder"] = rem\<close>; a title that is no key raises \<^verbatim>\<open>KeyError\<close>.\<close>

definition set_reminder :: "string \<Rightarrow> string \<Rightarrow> app \<Rightarrow> exn option \<times> app" where
  "set_reminder title rem st =
     (case map_of (app_lists st) title of
        None \<Rightarrow> (Some KeyError, st)
      | Some d \<Rightarrow>
          (None, st\<lparr>app_lists := AList.update title (d\<lparr>reminder := rem\<rparr>) (app_lists st)\<rparr>))"

subsection \<open>Reminder scheduling\<close>

text \<open>\<^verbatim>\<open>_job_id_for\<close>.\<close>

definition job_id_for :: "string \<Rightarrow> string" where
  "job_id_for list_title = ''reminder__'' @ str_replace '' '' ''_'' list_title"

abbreviation em_dash :: string where
  "em_dash \<equiv> [CHR 0xE2, CHR 0x80, CHR 0x94]"

abbreviation check_mark :: string where
  "check_mark \<equiv> [CHR 0xE2, CHR 0x9C, CHR 0x94]"

abbreviation newline :: string where
  "newline \<equiv> [CHR 0x0A]"

abbreviation apostrophe :: string where
  "apostrophe \<equiv> [CHR 0x27]"

text \<open>The \<^verbatim>\<open>Notify\<close> object that the closure \<^verbatim>\<open>notify\<close> fills in, from the store as it is
  when the closure runs.\<close>

definition build_notification :: "string \<Rightarrow> app \<Rightarrow> notification" where
  "build_notification list_title st =
     (let tasks = (case map_of (app_lists st) list_title of None \<Rightarrow> [] | Some d \<Rightarrow> tasks d)
      in \<lparr>n_title = ''Reminder '' @ em_dash @ '' '' @ list_title,
          n_message =
            ''You scheduled a reminder for '' @ apostrophe @ list_title @ apostrophe @ ''.''
              @ newline @ ''Tasks:'' @ newline
              @ str_join newline (map (\<lambda>t. ''- '' @ t) (take 10 tasks))\<rparr>)"

text \<open>The closure \<^verbatim>\<open>notify\<close> of \<^verbatim>\<open>_add_notification_job\<close> for the captured \<open>list_title\<close>.
  \<open>send_ok\<close> is whether \<^verbatim>\<open>n.send()\<close> returns normally; its exception is caught and dropped.\<close>

definition notify :: "bool \<Rightarrow> bool \<Rightarrow> string \<Rightarrow> app \<Rightarrow> app" where
  "notify send_ok write_ok list_title st =
     (let n = build_notification list_title st;
          st1 = st\<lparr>notifications := notifications st @ [(n, send_ok)]\<rparr>
      in if map_of (app_lists st1) list_title \<noteq> None
         then save_data write_ok (snd (set_reminder list_title [] st1))
         else st1)"

text \<open>The two halves of the closure, between which the worker thread can be suspended:
  \<open>notify_send\<close> builds the notification from the store and sends it, \<open>notify_clear\<close> is
  the block after \<^verbatim>\<open>n.send()\<close>, which clears the reminder of the captured title and
  saves.\<close>

definition notify_send :: "bool \<Rightarrow> string \<Rightarrow> app \<Rightarrow> app" where
  "notify_send send_ok list_title st =
     st\<lparr>notifications := notifications st @ [(build_notification list_title st, send_ok)]\<rparr>"

definition notify_clear :: "bool \<Rightarrow> string \<Rightarrow> app \<Rightarrow> app" where
  "notify_clear write_ok list_title st =
     (if map_of (app_lists st) list_title \<noteq> None
      then save_data write_ok (snd (set_reminder list_title [] st))
      else st)"

text \<open>\<^verbatim>\<open>_add_notification_job\<close>. The lookup and removal before the registration swallow
  every exception; the registration catches \<^verbatim>\<open>ConflictingIdError\<close> only and retries once,
  where every exception is swallowed. Any other exception of the first \<^verbatim>\<open>add_job\<close> leaves
  the method.\<close>

definition add_notification_job :: "string \<Rightarrow> datetime \<Rightarrow> app \<Rightarrow> exn option \<times> app" where
  "add_notification_job list_title run_dt st =
     (let jid = job_id_for list_title;
          st1 = (case get_job jid st of None \<Rightarrow> st | Some _ \<Rightarrow> snd (remove_job jid st));
          j = \<lparr>job_id = jid, run_date = run_dt, bound_title = list_title\<rparr>
      in case add_job j st1 of
           (None, st2) \<Rightarrow> (None, st2)
         | (Some ConflictingIdError, st2) \<Rightarrow>
             (case remove_job jid st2 of
                (Some _, st3) \<Rightarrow> (None, st3)
              | (None, st3) \<Rightarrow> (None, snd (add_job j st3)))
         | (Some e, st2) \<Rightarrow> (Some e, st2))"

text \<open>The scheduler's thread takes a due date-trigger job out of the job store; \<open>jid\<close> names
  the job whose time has come. It does so when it hands the job's callable to a worker
  thread, and also when it finds the job later than the misfire grace time and drops it
  without running it (the application sets no \<^verbatim>\<open>misfire_grace_time\<close>, so the library's
  default of one second holds).\<close>

definition take_due :: "string \<Rightarrow> app \<Rightarrow> app" where
  "take_due jid st =
     (case get_job jid st of
        None \<Rightarrow> st
      | Some j \<Rightarrow> st\<lparr>scheduler := remove_first jid (scheduler st)\<rparr>)"

text \<open>A firing in which nothing comes between: the job leaves the job store and its
  callable \<^verbatim>\<open>notify\<close> runs to its end before any other operation.\<close>

definition fire :: "string \<Rightarrow> bool \<Rightarrow> bool \<Rightarrow> app \<Rightarrow> app" where
  "fire jid send_ok write_ok st =
     (case get_job jid st of
        None \<Rightarrow> st
      | Some j \<Rightarrow>
          notify send_ok write_ok (bound_title j)
            (st\<lparr>scheduler := remove_first jid (scheduler st)\<rparr>))"

text \<open>\<^verbatim>\<open>_schedule_reminder_for_current_list\<close>. \<open>item\<close> is the text of the selected sidebar
  item (\<open>None\<close>: nothing selected), \<open>run_dt\<close> the naive datetime built from the calendar and
  the time edit, \<open>now\<close> the value of \<^verbatim>\<open>datetime.now()\<close>.\<close>

definition schedule_reminder_for_current_list ::
  "(naive \<Rightarrow> string) \<Rightarrow> string option \<Rightarrow> naive \<Rightarrow> naive \<Rightarrow> app \<Rightarrow> exn option \<times> app" where
  "schedule_reminder_for_current_list isoformat item run_dt now st =
     (case item of
        None \<Rightarrow> (None, show_dialog (Information ''No List'') st)
      | Some title \<Rightarrow>
          if run_dt \<le> now then (None, show_dialog (Information ''Invalid'') st)
          else (case set_reminder title (isoformat run_dt) st of
                  (Some e, st1) \<Rightarrow> (Some e, st1)
                | (None, st1) \<Rightarrow>
                    (case add_notification_job title (Naive run_dt) st1 of
                       (Some e, st2) \<Rightarrow> (Some e, st2)
                     | (None, st2) \<Rightarrow> (None, show_dialog (Information ''Scheduled'') st2))))"

text \<open>\<^verbatim>\<open>_clear_reminder_for_current_list\<close>.\<close>

definition clear_reminder_for_current_list :: "string option \<Rightarrow> app \<Rightarrow> exn option \<times> app" where
  "clear_reminder_for_current_list item st =
     (case item of
        None \<Rightarrow> (None, st)
      | Some title \<Rightarrow>
          (case map_of (app_lists st) title of
             None \<Rightarrow> (Some KeyError, st)
           | Some d \<Rightarrow>
               if reminder d = [] then (None, show_dialog (Information ''No Reminder'') st)
               else (let st1 = snd (remove_job (job_id_for title) st)
                     in case set_reminder title [] st1 of
                          (Some e, st2) \<Rightarrow> (Some e, st2)
                        | (None, st2) \<Rightarrow> (None, show_dialog (Information ''Cleared'') st2))))"

text \<open>\<^verbatim>\<open>_delete_selected_list\<close>; \<open>confirm\<close> is whether the user answered Yes.\<close>

definition delete_selected_list :: "string option \<Rightarrow> bool \<Rightarrow> app \<Rightarrow> app" where
  "delete_selected_list item confirm st =
     (case item of
        None \<Rightarrow> st
      | Some title \<Rightarrow>
          if \<not> confirm then st
          else (let rem = (case map_of (app_lists st) title of None \<Rightarrow> [] | Some d \<Rightarrow> reminder d);
                    st1 = (if rem \<noteq> [] then snd (remove_job (job_id_for title) st) else st)
                in st1\<lparr>app_lists := AList.delete title (app_lists st1)\<rparr>))"

text \<open>\<^verbatim>\<open>_rename_current_list\<close>; \<open>new_title\<close> is the stripped text of the title edit. The
  whole re-registration sits in a \<^verbatim>\<open>try\<close> whose \<^verbatim>\<open>except Exception\<close> passes, so a reminder
  that does not parse, or a registration that raises, ends it silently after the old job
  is gone.\<close>

definition rename_current_list ::
  "(string \<Rightarrow> datetime option) \<Rightarrow> string option \<Rightarrow> string \<Rightarrow> app \<Rightarrow> exn option \<times> app" where
  "rename_current_list fromisoformat item new_title st =
     (case item of
        None \<Rightarrow> (None, show_dialog (Information ''No List'') st)
      | Some old_title \<Rightarrow>
          if new_title = [] then (None, show_dialog (Information ''Empty'') st)
          else if new_title = old_title then (None, st)
          else if map_of (app_lists st) new_title \<noteq> None
            then (None, show_dialog (Information ''Exists'') st)
          else (case map_of (app_lists st) old_title of
                  None \<Rightarrow> (Some KeyError, st)
                | Some d \<Rightarrow>
                    (let st1 = st\<lparr>app_lists :=
                                  AList.update new_title d (AList.delete old_title (app_lists st))\<rparr>;
                         rem = reminder d
                     in if rem \<noteq> [] then
                          (case get_job (job_id_for old_title) st1 of
                             None \<Rightarrow> (None, st1)
                           | Some job \<Rightarrow>
                               (case remove_job (job_id_for old_title) st1 of
                                  (Some e, st2) \<Rightarrow> (None, st2)
                                | (None, st2) \<Rightarrow>
                                    (case fromisoformat rem of
                                       None \<Rightarrow> (None, st2)
                                     | Some run_dt \<Rightarrow>
                                         (None, snd (add_notification_job new_title run_dt st2)))))
                        else (None, st1))))"

text \<open>\<^verbatim>\<open>_schedule_existing_reminders\<close>: the body of the loop for one item, then the loop
  over the items of the store. \<open>later_than run_dt now\<close> is the comparison
  \<^verbatim>\<open>run_dt > dt.datetime.now()\<close>, which raises \<^verbatim>\<open>TypeError\<close> for an offset-aware \<open>run_dt\<close>.
  The \<^verbatim>\<open>try\<close> block is \<open>rearm_try\<close>; whatever it raises, the handler clears the reminder. The loop changes the entry of the title it visits
  only, so the \<open>data\<close> of an item is what the store holds for its title when the loop
  reaches it.\<close>

definition later_than :: "datetime \<Rightarrow> naive \<Rightarrow> exn + bool" where
  "later_than run_dt now =
     (case run_dt of Naive n \<Rightarrow> Inr (n > now) | Aware n \<Rightarrow> Inl TypeError)"

definition rearm_try ::
  "(string \<Rightarrow> datetime option) \<Rightarrow> naive \<Rightarrow> string \<Rightarrow> string \<Rightarrow> app \<Rightarrow> exn option \<times> app" where
  "rearm_try fromisoformat now title rem st =
     (case fromisoformat rem of
        None \<Rightarrow> (Some ValueError, st)
      | Some run_dt \<Rightarrow>
          (case later_than run_dt now of
             Inl e \<Rightarrow> (Some e, st)
           | Inr True \<Rightarrow> add_notification_job title run_dt st
           | Inr False \<Rightarrow> set_reminder title [] st))"

definition rearm_item ::
  "(string \<Rightarrow> datetime option) \<Rightarrow> naive \<Rightarrow> string \<Rightarrow> list_data \<Rightarrow> app \<Rightarrow> exn option \<times> app" where
  "rearm_item fromisoformat now title data st =
     (let rem = reminder data
      in if rem \<noteq> [] then
           (case rearm_try fromisoformat now title rem st of
              (None, st1) \<Rightarrow> (None, st1)
            | (Some e, st1) \<Rightarrow> set_reminder title [] st1)
         else (None, st))"

fun rearm_loop ::
  "(string \<Rightarrow> datetime option) \<Rightarrow> naive \<Rightarrow> (string \<times> list_data) list \<Rightarrow> app \<Rightarrow> exn option \<times> app" where
  "rearm_loop fromisoformat now [] st = (None, st)"
| "rearm_loop fromisoformat now ((title, data) # items) st =
     (case rearm_item fromisoformat now title data st of
        (Some e, st1) \<Rightarrow> (Some e, st1)
      | (None, st1) \<Rightarrow> rearm_loop fromisoformat now items st1)"

definition schedule_existing_reminders ::
  "(string \<Rightarrow> datetime option) \<Rightarrow> naive \<Rightarrow> app \<Rightarrow> exn option \<times> app" where
  "schedule_existing_reminders fromisoformat now st = rearm_loop fromisoformat now (app_lists st) st"

text \<open>\<^verbatim>\<open>_mark_list_done\<close>.\<close>

definition mark_list_done :: "string option \<Rightarrow> app \<Rightarrow> exn option \<times> app" where
  "mark_list_done item st =
     (case item of
        None \<Rightarrow> (None, st)
      | Some title \<Rightarrow>
          (case map_of (app_lists st) title of
             None \<Rightarrow> (Some KeyError, st)
           | Some d \<Rightarrow>
               (let st1 = st\<lparr>app_lists :=
                             AList.update title
                               (d\<lparr>tasks := map (\<lambda>t. check_mark @ '' '' @ t) (tasks d),
                                  reminder := []\<rparr>)
                               (app_lists st)\<rparr>;
                    st2 = snd (remove_job (job_id_for title) st1)
                in (None, show_dialog (Information ''Done'') st2))))"

subsection \<open>Runs of the application\<close>

text \<open>The user's actions on the reminder of a list, the startup pass and what the
  scheduler does with a due job, as the operations of a run. A due job either fires with
  nothing in between (\<open>Fire\<close>), or the scheduler's thread takes it out of the job store
  (\<open>Take\<close>) and its callable runs later on the worker thread, in two halves (\<open>CallbackSend\<close>
  and \<open>CallbackClear\<close>, with the title the callable has captured), after other
  operations, or never, when the job was dropped as missed. The application holds no
  lock, so nothing keeps other operations from coming between. An exception that leaves
  a method ends the run.\<close>

datatype op =
    Schedule "string option" naive naive
  | Cancel "string option"
  | Rename "string option" string
  | Delete "string option" bool
  | MarkDone "string option"
  | Rearm naive
  | Fire string bool bool
  | Take string
  | CallbackSend string bool
  | CallbackClear string bool

fun step ::
  "(naive \<Rightarrow> string) \<Rightarrow> (string \<Rightarrow> datetime option) \<Rightarrow> op \<Rightarrow> app \<Rightarrow> exn option \<times> app" where
  "step isoformat fromisoformat (Schedule item run_dt now) st =
     schedule_reminder_for_current_list isoformat item run_dt now st"
| "step isoformat fromisoformat (Cancel item) st = clear_reminder_for_current_list item st"
| "step isoformat fromisoformat (Rename item new_title) st =
     rename_current_list fromisoformat item new_title st"
| "step isoformat fromisoformat (Delete item confirm) st =
     (None, delete_selected_list item confirm st)"
| "step isoformat fromisoformat (MarkDone item) st = mark_list_done item st"
| "step isoformat fromisoformat (Rearm now) st = schedule_existing_reminders fromisoformat now st"
| "step isoformat fromisoformat (Fire jid send_ok write_ok) st =
     (None, fire jid send_ok write_ok st)"
| "step isoformat fromisoformat (Take jid) st = (None, take_due jid st)"
| "step isoformat fromisoformat (CallbackSend list_title send_ok) st =
     (None, notify_send send_ok list_title st)"
| "step isoformat fromisoformat (CallbackClear list_title write_ok) st =
     (None, notify_clear write_ok list_title st)"

fun run ::
  "(naive \<Rightarrow> string) \<Rightarrow> (string \<Rightarrow> datetime option) \<Rightarrow> op list \<Rightarrow> app \<Rightarrow> exn option \<times> app" where
  "run isoformat fromisoformat [] st = (None, st)"
| "run isoformat fromisoformat (x # xs) st =
     (case step isoformat fromisoformat x st of
        (Some e, st1) \<Rightarrow> (Some e, st1)
      | (None, st1) \<Rightarrow> run isoformat fromisoformat xs st1)"

subsection \<open>Agreement of the store and the scheduler\<close>

text \<open>No two titles of the store have the same job id.\<close>

definition collision_free :: "store \<Rightarrow> bool" where
  "collision_free ls = distinct (map (\<lambda>(t, d). job_id_for t) ls)"

text \<open>At most one pending job for an id.\<close>

definition job_ids_unique :: "app \<Rightarrow> bool" where
  "job_ids_unique st = distinct (map job_id (scheduler st))"

text \<open>Every pending job carries the id of the title it is bound to, and that title is a
  list of the store.\<close>

definition jobs_owned :: "app \<Rightarrow> bool" where
  "jobs_owned st =
     (\<forall>j \<in> set (scheduler st).
        job_id j = job_id_for (bound_title j) \<and> map_of (app_lists st) (bound_title j) \<noteq> None)"

text \<open>The reminder of a list is empty exactly when no job is pending under the job id of
  its title, and a pending one fires at the time the reminder string denotes and is bound
  to the title.\<close>

definition reminder_agrees :: "(string \<Rightarrow> datetime option) \<Rightarrow> app \<Rightarrow> bool" where
  "reminder_agrees fromisoformat st =
     (\<forall>(t, d) \<in> set (app_lists st).
        (case get_job (job_id_for t) st of
           None \<Rightarrow> reminder d = []
         | Some j \<Rightarrow>
             reminder d \<noteq> [] \<and> fromisoformat (reminder d) = Some (run_date j)
               \<and> bound_title j = t))"

definition consistent :: "(string \<Rightarrow> datetime option) \<Rightarrow> app \<Rightarrow> bool" where
  "consistent fromisoformat st \<longleftrightarrow>
     job_ids_unique st \<and> jobs_owned st \<and> reminder_agrees fromisoformat st"

text \<open>The same agreement, stated for the store as a map and the pending jobs as a list:
  the form in which the proofs carry it through the operations.\<close>

definition agreement ::
  "(string \<Rightarrow> datetime option) \<Rightarrow> (string \<rightharpoonup> list_data) \<Rightarrow> job list \<Rightarrow> bool" where
  "agreement fromisoformat m js \<longleftrightarrow>
     distinct (map job_id js) \<and>
     (\<forall>j \<in> set js.
        job_id j = job_id_for (bound_title j) \<and>
        (\<exists>d. m (bound_title j) = Some d \<and> reminder d \<noteq> [] \<and>
             fromisoformat (reminder d) = Some (run_date j))) \<and>
     (\<forall>t d. m t = Some d \<and> reminder d \<noteq> [] \<longrightarrow> (\<exists>j \<in> set js. bound_title j = t))"

text \<open>The conditions on a run under which the agreement is kept: in every state the run
  passes, no two titles share a job id and the scheduler library raises nothing of its
  own; a rearm pass starts when every pending job lies strictly after \<open>now\<close>; and every
  due job fires with nothing in between, so that the run has no \<open>Take\<close>, \<open>CallbackSend\<close>
  or \<open>CallbackClear\<close> of its own: no job is dropped as missed and no operation comes
  between the removal of a job and the end of its callable.\<close>

fun op_ok :: "op \<Rightarrow> app \<Rightarrow> bool" where
  "op_ok (Rearm now) st = (\<forall>j \<in> set (scheduler st). later_than (run_date j) now = Inr True)"
| "op_ok (Take jid) st = False"
| "op_ok (CallbackSend list_title send_ok) st = False"
| "op_ok (CallbackClear list_title write_ok) st = False"
| "op_ok x st = True"

fun guarded ::
  "(naive \<Rightarrow> string) \<Rightarrow> (string \<Rightarrow> datetime option) \<Rightarrow> op list \<Rightarrow> app \<Rightarrow> bool" where
  "guarded isoformat fromisoformat [] st =
     (collision_free (app_lists st) \<and> add_job_faults st = [])"
| "guarded isoformat fromisoformat (x # xs) st =
     (collision_free (app_lists st) \<and> add_job_faults st = [] \<and> op_ok x st \<and>
      (case step isoformat fromisoformat x st of
         (Some e, st1) \<Rightarrow> collision_free (app_lists st1)
       | (None, st1) \<Rightarrow> guarded isoformat fromisoformat xs st1))"

text \<open>The reminder of a list is due to be armed at \<open>now\<close>: it is set, parses to a naive
  datetime, and lies strictly in the future.\<close>

definition future_reminder :: "(string \<Rightarrow> datetime option) \<Rightarrow> naive \<Rightarrow> list_data \<Rightarrow> bool" where
  "future_reminder fromisoformat now d =
     (reminder d \<noteq> [] \<and>
      (case fromisoformat (reminder d) of
         None \<Rightarrow> False
       | Some run_dt \<Rightarrow> later_than run_dt now = Inr True))"

subsection \<open>Sample data\<close>

text \<open>A stand-in for the two library functions on the sample runs: a naive time \<open>n\<close> is
  written as the letter T and \<open>n\<close> zeros, an offset-aware one as the letter Z and \<open>n\<close> zeros.\<close>

definition sample_isoformat :: "naive \<Rightarrow> string" where
  "sample_isoformat n = CHR ''T'' # replicate n (CHR ''0'')"

definition sample_fromisoformat :: "string \<Rightarrow> datetime option" where
  "sample_fromisoformat s =
     (case s of
        [] \<Rightarrow> None
      | c # cs \<Rightarrow>
          if c = CHR ''T'' \<and> list_all (\<lambda>x. x = CHR ''0'') cs then Some (Naive (length cs))
          else if c = CHR ''Z'' \<and> list_all (\<lambda>x. x = CHR ''0'') cs then Some (Aware (length cs))
          else None)"

definition blank_app :: app where
  "blank_app = \<lparr>app_lists = [], scheduler = [], add_job_faults = [], notifications = [],
                saved = None, dialogs = []\<rparr>"

text \<open>One list with two tasks and a reminder at time 3, its job pending.\<close>

definition errands_app :: app where
  "errands_app = blank_app
     \<lparr>app_lists := [(''Errands'', \<lparr>tasks = [''Buy milk'', ''Pay bills''], reminder = ''T000''\<rparr>)],
      scheduler := [\<lparr>job_id = ''reminder__Errands'', run_date = Naive 3, bound_title = ''Errands''\<rparr>]\<rparr>"

text \<open>A list of twelve tasks with its job pending.\<close>

definition long_app :: app where
  "long_app = blank_app
     \<lparr>app_lists := [(''Long'', \<lparr>tasks = [''a'', ''b'', ''c'', ''d'', ''e'', ''f'', ''g'', ''h'',
                                        ''i'', ''j'', ''k'', ''l''], reminder = ''T000''\<rparr>)],
      scheduler := [\<lparr>job_id = ''reminder__Long'', run_date = Naive 3, bound_title = ''Long''\<rparr>]\<rparr>"

text \<open>A pending job whose list is not in the store.\<close>

definition orphan_app :: app where
  "orphan_app = blank_app
     \<lparr>scheduler := [\<lparr>job_id = ''reminder__Gone'', run_date = Naive 3, bound_title = ''Gone''\<rparr>]\<rparr>"

text \<open>A list whose reminder is empty while a job is pending under its job id.\<close>

definition stale_app :: app where
  "stale_app = blank_app
     \<lparr>app_lists := [(''Errands'', \<lparr>tasks = [''Buy milk''], reminder = []\<rparr>)],
      scheduler := [\<lparr>job_id = ''reminder__Errands'', run_date = Naive 3, bound_title = ''Errands''\<rparr>]\<rparr>"

text \<open>A list without reminder, and a scheduler library that answers the next \<^verbatim>\<open>add_job\<close>
  with \<^verbatim>\<open>ConflictingIdError\<close>.\<close>

definition conflict_app :: app where
  "conflict_app = blank_app
     \<lparr>app_lists := [(''Errands'', \<lparr>tasks = [''Buy milk''], reminder = []\<rparr>)],
      add_job_faults := [Some ConflictingIdError]\<rparr>"

text \<open>Two lists whose titles differ in a space against an underscore, with reminders at
  times 1 and 2, as loaded from the file at startup.\<close>

definition colliding_app :: app where
  "colliding_app = blank_app
     \<lparr>app_lists := [(''a b'', \<lparr>tasks = [], reminder = ''T0''\<rparr>),
                    (''a_b'', \<lparr>tasks = [], reminder = ''T00''\<rparr>)]\<rparr>"

text \<open>A list "Groceries" with a reminder at time 3, its job pending.\<close>

definition groceries_app :: app where
  "groceries_app = blank_app
     \<lparr>app_lists := [(''Groceries'', \<lparr>tasks = [''Eggs''], reminder = ''T000''\<rparr>)],
      scheduler := [\<lparr>job_id = ''reminder__Groceries'', run_date = Naive 3, bound_title = ''Groceries''\<rparr>]\<rparr>"

text \<open>A list whose title has a space, with a reminder at time 1, its job pending.\<close>

definition spaced_app :: app where
  "spaced_app = blank_app
     \<lparr>app_lists := [(''a b'', \<lparr>tasks = [], reminder = ''T0''\<rparr>)],
      scheduler := [\<lparr>job_id = ''reminder__a_b'', run_date = Naive 1, bound_title = ''a b''\<rparr>]\<rparr>"

text \<open>A store as loaded at startup: reminders at the naive times 5 and 1, one that does
  not parse, one that is not set and one at the offset-aware time 9; no job is pending
  yet.\<close>

definition startup_app :: app where
  "startup_app = blank_app
     \<lparr>app_lists := [(''Work'', \<lparr>tasks = [''Mail''], reminder = ''T00000''\<rparr>),
                    (''Home'', \<lparr>tasks = [], reminder = ''T0''\<rparr>),
                    (''Misc'', \<lparr>tasks = [], reminder = ''soon''\<rparr>),
                    (''Idle'', \<lparr>tasks = [], reminder = []\<rparr>),
                    (''Zone'', \<lparr>tasks = [], reminder = ''Z000000000''\<rparr>)]\<rparr>"

text \<open>Two lists whose titles differ in a space against an underscore, neither with a
  reminder.\<close>

definition twin_app :: app where
  "twin_app = blank_app
     \<lparr>app_lists := [(''a b'', \<lparr>tasks = [], reminder = []\<rparr>),
                    (''a_b'', \<lparr>tasks = [], reminder = []\<rparr>)]\<rparr>"

section \<open>Properties\<close>

subsection \<open>The job id\<close>

lemma str_replace_char:
  "str_replace [a] [b] s = map (\<lambda>c. if c = a then b else c) s"
  by (induction s) auto

text \<open>C3, as the code has it: the job id is the prefix \<open>reminder__\<close> followed by the title in
  which every space character (U+0020) is an underscore and every other character,
  a tab or a newline too, is kept. The function is total and depends on the title only.\<close>

theorem job_id_for_spaces:
  "job_id_for list_title =
     ''reminder__'' @ map (\<lambda>c. if c = CHR '' '' then CHR ''_'' else c) list_title"
  by (simp add: job_id_for_def str_replace_char)

text \<open>C3 as stated fails: a tab in the title is whitespace and stays in the job id.\<close>

theorem job_id_for_tab_counterexample:
  "job_id_for [CHR ''a'', CHR 0x09, CHR ''b''] = ''reminder__a'' @ [CHR 0x09] @ ''b'' \<and>
   job_id_for [CHR ''a'', CHR 0x09, CHR ''b''] \<noteq> ''reminder__a_b''"
  by (simp add: job_id_for_def)

subsection \<open>Firing\<close>

lemma set_reminder_present:
  "map_of (app_lists st) title = Some d \<Longrightarrow>
   set_reminder title r st =
     (None, st\<lparr>app_lists := AList.update title (d\<lparr>reminder := r\<rparr>) (app_lists st)\<rparr>)"
  by (simp add: set_reminder_def)

text \<open>C5: when the job bound to a list of the store fires, the reminder of the list is
  cleared and \<^verbatim>\<open>_save_data\<close> runs on the cleared store, whether \<^verbatim>\<open>send\<close> returned or raised;
  the file then holds the cleared store whenever the write itself goes through.\<close>

theorem fire_clears_and_saves:
  assumes "get_job jid st = Some j"
    and "map_of (app_lists st) (bound_title j) = Some d"
  shows "app_lists (fire jid send_ok write_ok st) =
           AList.update (bound_title j) (d\<lparr>reminder := []\<rparr>) (app_lists st) \<and>
         map_of (app_lists (fire jid send_ok write_ok st)) (bound_title j) =
           Some (d\<lparr>reminder := []\<rparr>) \<and>
         saved (fire jid send_ok write_ok st) =
           (if write_ok then Some (app_lists (fire jid send_ok write_ok st)) else saved st) \<and>
         dialogs (fire jid send_ok write_ok st) =
           dialogs st @ [if write_ok then Information ''Saved'' else Warning ''Save Error'']"
  using assms
  by (simp add: fire_def notify_def save_data_def show_dialog_def Let_def update_conv'
      set_reminder_present)

theorem fire_clears_and_saves_witness:
  "get_job ''reminder__Errands'' errands_app =
     Some \<lparr>job_id = ''reminder__Errands'', run_date = Naive 3, bound_title = ''Errands''\<rparr> \<and>
   map_of (app_lists errands_app) ''Errands'' =
     Some \<lparr>tasks = [''Buy milk'', ''Pay bills''], reminder = ''T000''\<rparr> \<and>
   app_lists (fire ''reminder__Errands'' False True errands_app) =
     [(''Errands'', \<lparr>tasks = [''Buy milk'', ''Pay bills''], reminder = []\<rparr>)] \<and>
   saved (fire ''reminder__Errands'' False True errands_app) =
     Some [(''Errands'', \<lparr>tasks = [''Buy milk'', ''Pay bills''], reminder = []\<rparr>)]"
proof -
  have h1: "get_job ''reminder__Errands'' errands_app =
     Some \<lparr>job_id = ''reminder__Errands'', run_date = Naive 3, bound_title = ''Errands''\<rparr>"
    by (simp add: errands_app_def blank_app_def get_job_def)
  have h2: "map_of (app_lists errands_app)
       (bound_title \<lparr>job_id = ''reminder__Errands'', run_date = Naive 3, bound_title = ''Errands''\<rparr>) =
     Some \<lparr>tasks = [''Buy milk'', ''Pay bills''], reminder = ''T000''\<rparr>"
    by (simp add: errands_app_def blank_app_def)
  have a: "app_lists errands_app =
      [(''Errands'', \<lparr>tasks = [''Buy milk'', ''Pay bills''], reminder = ''T000''\<rparr>)]"
    by (simp add: errands_app_def blank_app_def)
  show ?thesis
    using fire_clears_and_saves [OF h1 h2, of False True] h1 h2
    by (simp add: a)
qed

text \<open>C10: when the job fires for a title that is no key of the store, \<^verbatim>\<open>send\<close> is still
  called, with a body that lists no task; the store, the file and the dialogs stay as
  they are, only the job is gone from the scheduler.\<close>

theorem fire_absent_title:
  assumes "get_job jid st = Some j"
    and "map_of (app_lists st) (bound_title j) = None"
  shows "fire jid send_ok write_ok st =
     st\<lparr>scheduler := remove_first jid (scheduler st),
        notifications := notifications st @
        [(\<lparr>n_title = ''Reminder '' @ em_dash @ '' '' @ bound_title j,
           n_message = ''You scheduled a reminder for '' @ apostrophe @ bound_title j @ apostrophe
              @ ''.'' @ newline @ ''Tasks:'' @ newline\<rparr>, send_ok)]\<rparr>"
  using assms
  by (simp add: fire_def notify_def build_notification_def)

theorem fire_absent_title_witness:
  "get_job ''reminder__Gone'' orphan_app =
     Some \<lparr>job_id = ''reminder__Gone'', run_date = Naive 3, bound_title = ''Gone''\<rparr> \<and>
   map_of (app_lists orphan_app) ''Gone'' = None \<and>
   fire ''reminder__Gone'' True True orphan_app =
     blank_app\<lparr>notifications :=
        [(\<lparr>n_title = ''Reminder '' @ em_dash @ '' Gone'',
           n_message = ''You scheduled a reminder for '' @ apostrophe @ ''Gone'' @ apostrophe
              @ ''.'' @ newline @ ''Tasks:'' @ newline\<rparr>, True)]\<rparr>"
proof -
  have h1: "get_job ''reminder__Gone'' orphan_app =
     Some \<lparr>job_id = ''reminder__Gone'', run_date = Naive 3, bound_title = ''Gone''\<rparr>"
    by (simp add: orphan_app_def blank_app_def get_job_def)
  have h2: "map_of (app_lists orphan_app)
      (bound_title \<lparr>job_id = ''reminder__Gone'', run_date = Naive 3, bound_title = ''Gone''\<rparr>) = None"
    by (simp add: orphan_app_def blank_app_def)
  show ?thesis
    using fire_absent_title [OF h1 h2, of True True] h1 h2
    by (simp add: orphan_app_def blank_app_def)
qed

text \<open>C8: the notification of a firing job has the title \<open>Reminder\<close>, an em dash and the
  list title, and a body made of the intro sentence (which names the list) and the line
  \<open>Tasks:\<close>, followed by the first ten tasks the list has when the job fires, one per line,
  each after the bullet \<open>- \<close>.\<close>

theorem fire_notification_payload:
  assumes "get_job jid st = Some j"
  shows "notifications (fire jid send_ok write_ok st) =
     notifications st @
       [(\<lparr>n_title = ''Reminder '' @ em_dash @ '' '' @ bound_title j,
          n_message = ''You scheduled a reminder for '' @ apostrophe @ bound_title j @ apostrophe
              @ ''.'' @ newline @ ''Tasks:'' @ newline
              @ str_join newline
                  (map (\<lambda>t. ''- '' @ t)
                     (take 10 (case map_of (app_lists st) (bound_title j) of
                                 None \<Rightarrow> [] | Some d \<Rightarrow> tasks d)))\<rparr>, send_ok)]"
  using assms
  by (cases "map_of (app_lists st) (bound_title j)")
     (simp_all add: fire_def notify_def build_notification_def save_data_def show_dialog_def
        set_reminder_def Let_def)

theorem fire_notification_payload_witness:
  "get_job ''reminder__Long'' long_app =
     Some \<lparr>job_id = ''reminder__Long'', run_date = Naive 3, bound_title = ''Long''\<rparr> \<and>
   notifications (fire ''reminder__Long'' True True long_app) =
     [(\<lparr>n_title = ''Reminder '' @ em_dash @ '' Long'',
        n_message = ''You scheduled a reminder for '' @ apostrophe @ ''Long'' @ apostrophe
              @ ''.'' @ newline @ ''Tasks:'' @ newline
              @ ''- a'' @ newline @ ''- b'' @ newline @ ''- c'' @ newline @ ''- d'' @ newline
              @ ''- e'' @ newline @ ''- f'' @ newline @ ''- g'' @ newline @ ''- h'' @ newline
              @ ''- i'' @ newline @ ''- j''\<rparr>, True)]"
proof -
  have h1: "get_job ''reminder__Long'' long_app =
     Some \<lparr>job_id = ''reminder__Long'', run_date = Naive 3, bound_title = ''Long''\<rparr>"
    by (simp add: long_app_def blank_app_def get_job_def)
  show ?thesis
    using fire_notification_payload [OF h1, of True True] h1
    by (simp add: long_app_def blank_app_def)
qed

subsection \<open>Deleting a list\<close>

text \<open>C9: deleting a list whose reminder string is empty removes the list and leaves the
  scheduler as it is, so a job pending under the list's job id stays pending.\<close>

theorem delete_empty_reminder_keeps_job:
  assumes "map_of (app_lists st) title = Some d"
    and "reminder d = []"
    and "get_job (job_id_for title) st = Some j"
  shows "map_of (app_lists (delete_selected_list (Some title) True st)) title = None \<and>
         scheduler (delete_selected_list (Some title) True st) = scheduler st \<and>
         get_job (job_id_for title) (delete_selected_list (Some title) True st) = Some j"
  using assms
  by (simp add: delete_selected_list_def get_job_def delete_conv')

theorem delete_empty_reminder_keeps_job_witness:
  "map_of (app_lists stale_app) ''Errands'' = Some \<lparr>tasks = [''Buy milk''], reminder = []\<rparr> \<and>
   get_job (job_id_for ''Errands'') stale_app =
     Some \<lparr>job_id = ''reminder__Errands'', run_date = Naive 3, bound_title = ''Errands''\<rparr> \<and>
   app_lists (delete_selected_list (Some ''Errands'') True stale_app) = [] \<and>
   scheduler (delete_selected_list (Some ''Errands'') True stale_app) =
     [\<lparr>job_id = ''reminder__Errands'', run_date = Naive 3, bound_title = ''Errands''\<rparr>]"
proof -
  have h1: "map_of (app_lists stale_app) ''Errands'' =
      Some \<lparr>tasks = [''Buy milk''], reminder = []\<rparr>"
    by (simp add: stale_app_def blank_app_def)
  have h2: "reminder \<lparr>tasks = [''Buy milk''], reminder = []\<rparr> = []"
    by simp
  have h3: "get_job (job_id_for ''Errands'') stale_app =
     Some \<lparr>job_id = ''reminder__Errands'', run_date = Naive 3, bound_title = ''Errands''\<rparr>"
    by (simp add: stale_app_def blank_app_def get_job_def job_id_for_def)
  have l: "app_lists (delete_selected_list (Some ''Errands'') True stale_app) = []"
    by (simp add: delete_selected_list_def stale_app_def blank_app_def)
  have s: "scheduler stale_app =
     [\<lparr>job_id = ''reminder__Errands'', run_date = Naive 3, bound_title = ''Errands''\<rparr>]"
    by (simp add: stale_app_def blank_app_def)
  show ?thesis
    using delete_empty_reminder_keeps_job [OF h1 h2 h3] h1 h3 l s
    by simp
qed

subsection \<open>Scheduling\<close>

lemma filter_other_ids:
  "jid \<notin> job_id ` set js \<Longrightarrow> filter (\<lambda>j. job_id j \<noteq> jid) js = js"
  by (induction js) auto

lemma remove_first_filter:
  "distinct (map job_id js) \<Longrightarrow> remove_first jid js = filter (\<lambda>j. job_id j \<noteq> jid) js"
  by (induction js) (auto simp: filter_other_ids)

lemma get_job_None_iff: "get_job jid st = None \<longleftrightarrow> jid \<notin> job_id ` set (scheduler st)"
  by (auto simp: get_job_def find_None_iff)

lemma get_job_SomeD: "get_job jid st = Some j \<Longrightarrow> j \<in> set (scheduler st) \<and> job_id j = jid"
  by (auto simp: get_job_def find_Some_iff)

lemma snd_remove_job:
  "distinct (map job_id (scheduler st)) \<Longrightarrow>
   snd (remove_job jid st) = st\<lparr>scheduler := filter (\<lambda>j. job_id j \<noteq> jid) (scheduler st)\<rparr>"
proof (cases "get_job jid st")
  case None
  then have "filter (\<lambda>j. job_id j \<noteq> jid) (scheduler st) = scheduler st"
    by (simp add: get_job_None_iff filter_other_ids)
  with None show ?thesis by (simp add: remove_job_def)
next
  case (Some j)
  assume "distinct (map job_id (scheduler st))"
  with Some show ?thesis by (simp add: remove_job_def remove_first_filter)
qed

lemma add_job_plain:
  "add_job_faults st = [] \<Longrightarrow> get_job (job_id j) st = None \<Longrightarrow>
   add_job j st = (None, st\<lparr>scheduler := scheduler st @ [j]\<rparr>)"
  by (simp add: add_job_def get_job_def)

lemma add_notification_job_plain:
  assumes "distinct (map job_id (scheduler st))" and "add_job_faults st = []"
  shows "add_notification_job list_title run_dt st =
     (None, st\<lparr>scheduler :=
        filter (\<lambda>j. job_id j \<noteq> job_id_for list_title) (scheduler st)
          @ [\<lparr>job_id = job_id_for list_title, run_date = run_dt, bound_title = list_title\<rparr>]\<rparr>)"
proof -
  let ?jid = "job_id_for list_title"
  let ?st1 = "st\<lparr>scheduler := filter (\<lambda>j. job_id j \<noteq> ?jid) (scheduler st)\<rparr>"
  have st1: "(case get_job ?jid st of None \<Rightarrow> st | Some _ \<Rightarrow> snd (remove_job ?jid st)) = ?st1"
  proof (cases "get_job ?jid st")
    case None
    then have "filter (\<lambda>j. job_id j \<noteq> ?jid) (scheduler st) = scheduler st"
      by (simp add: get_job_None_iff filter_other_ids)
    with None show ?thesis by simp
  next
    case (Some j)
    then show ?thesis using assms(1) by (simp add: snd_remove_job)
  qed
  have "get_job ?jid ?st1 = None"
    by (auto simp: get_job_None_iff)
  then have "add_job \<lparr>job_id = ?jid, run_date = run_dt, bound_title = list_title\<rparr> ?st1 =
      (None, ?st1\<lparr>scheduler := scheduler ?st1 @
          [\<lparr>job_id = ?jid, run_date = run_dt, bound_title = list_title\<rparr>]\<rparr>)"
    using assms(2) by (intro add_job_plain) simp_all
  then show ?thesis
    unfolding add_notification_job_def Let_def st1 by simp
qed

lemma remove_job_frame:
  "app_lists (snd (remove_job jid st)) = app_lists st \<and>
   dialogs (snd (remove_job jid st)) = dialogs st \<and>
   notifications (snd (remove_job jid st)) = notifications st \<and>
   saved (snd (remove_job jid st)) = saved st"
  by (cases "get_job jid st") (simp_all add: remove_job_def)

lemma add_job_frame:
  "app_lists (snd (add_job j st)) = app_lists st \<and>
   dialogs (snd (add_job j st)) = dialogs st \<and>
   notifications (snd (add_job j st)) = notifications st \<and>
   saved (snd (add_job j st)) = saved st"
proof (cases "add_job_faults st")
  case Nil
  then show ?thesis
    by (cases "find (\<lambda>ja. job_id ja = job_id j) (scheduler st)")
       (simp_all add: add_job_def get_job_def)
next
  case (Cons f fs)
  then show ?thesis
    by (cases f; cases "find (\<lambda>ja. job_id ja = job_id j) (scheduler st)")
       (simp_all add: add_job_def get_job_def)
qed

lemma add_notification_job_frame:
  "app_lists (snd (add_notification_job list_title run_dt st)) = app_lists st \<and>
   dialogs (snd (add_notification_job list_title run_dt st)) = dialogs st \<and>
   notifications (snd (add_notification_job list_title run_dt st)) = notifications st \<and>
   saved (snd (add_notification_job list_title run_dt st)) = saved st"
proof -
  let ?jid = "job_id_for list_title"
  let ?j = "\<lparr>job_id = ?jid, run_date = run_dt, bound_title = list_title\<rparr>"
  define st1 where "st1 = (case get_job ?jid st of None \<Rightarrow> st | Some _ \<Rightarrow> snd (remove_job ?jid st))"
  have f1: "app_lists st1 = app_lists st \<and> dialogs st1 = dialogs st \<and>
            notifications st1 = notifications st \<and> saved st1 = saved st"
    unfolding st1_def using remove_job_frame [of ?jid st]
    by (cases "get_job ?jid st") simp_all
  obtain e st2 where a: "add_job ?j st1 = (e, st2)"
    by (cases "add_job ?j st1")
  have f2: "app_lists st2 = app_lists st \<and> dialogs st2 = dialogs st \<and>
            notifications st2 = notifications st \<and> saved st2 = saved st"
    using add_job_frame [of ?j st1] a f1 by simp
  obtain e3 st3 where r: "remove_job ?jid st2 = (e3, st3)"
    by (cases "remove_job ?jid st2")
  have f3: "app_lists st3 = app_lists st \<and> dialogs st3 = dialogs st \<and>
            notifications st3 = notifications st \<and> saved st3 = saved st"
    using remove_job_frame [of ?jid st2] r f2 by simp
  have f4: "app_lists (snd (add_job ?j st3)) = app_lists st \<and>
            dialogs (snd (add_job ?j st3)) = dialogs st \<and>
            notifications (snd (add_job ?j st3)) = notifications st \<and>
            saved (snd (add_job ?j st3)) = saved st"
    using add_job_frame [of ?j st3] f3 by simp
  have res: "add_notification_job list_title run_dt st =
      (case e of None \<Rightarrow> (None, st2)
       | Some ConflictingIdError \<Rightarrow>
           (case e3 of Some _ \<Rightarrow> (None, st3) | None \<Rightarrow> (None, snd (add_job ?j st3)))
       | Some x \<Rightarrow> (Some x, st2))"
    unfolding add_notification_job_def Let_def st1_def [symmetric] a
    by (simp add: r split: option.splits exn.splits)
  show ?thesis
    unfolding res using f2 f3 f4
    by (cases e; cases e3) (simp_all split: exn.splits)
qed

lemma schedule_unfold:
  assumes "map_of (app_lists st) title = Some d" and "now < run_dt"
  shows "schedule_reminder_for_current_list isoformat (Some title) run_dt now st =
     (case add_notification_job title (Naive run_dt)
             (st\<lparr>app_lists := AList.update title (d\<lparr>reminder := isoformat run_dt\<rparr>) (app_lists st)\<rparr>) of
        (Some e, st2) \<Rightarrow> (Some e, st2)
      | (None, st2) \<Rightarrow> (None, show_dialog (Information ''Scheduled'') st2))"
  using assms by (simp add: schedule_reminder_for_current_list_def set_reminder_present)

lemma remove_job_faults:
  "add_job_faults (snd (remove_job jid st)) = add_job_faults st"
  by (cases "get_job jid st") (simp_all add: remove_job_def)

lemma add_job_raises:
  assumes "add_job j st = (Some e, st2)" and "e \<noteq> ConflictingIdError"
  shows "\<exists>fs. add_job_faults st = Some e # fs"
proof (cases "add_job_faults st")
  case Nil
  then show ?thesis
    using assms
    by (cases "find (\<lambda>k. job_id k = job_id j) (scheduler st)")
       (simp_all add: add_job_def get_job_def)
next
  case (Cons f fs)
  show ?thesis
  proof (cases f)
    case None
    then show ?thesis
      using assms Cons
      by (cases "find (\<lambda>k. job_id k = job_id j) (scheduler st)")
         (simp_all add: add_job_def get_job_def)
  next
    case (Some e')
    then show ?thesis
      using assms Cons by (simp add: add_job_def)
  qed
qed

lemma add_notification_job_raises:
  assumes "fst (add_notification_job list_title run_dt st) = Some e"
  shows "e \<noteq> ConflictingIdError \<and> (\<exists>fs. add_job_faults st = Some e # fs)"
proof -
  let ?jid = "job_id_for list_title"
  let ?j = "\<lparr>job_id = ?jid, run_date = run_dt, bound_title = list_title\<rparr>"
  define st1 where "st1 = (case get_job ?jid st of None \<Rightarrow> st | Some _ \<Rightarrow> snd (remove_job ?jid st))"
  have f1: "add_job_faults st1 = add_job_faults st"
    unfolding st1_def using remove_job_faults [of ?jid st]
    by (cases "get_job ?jid st") simp_all
  obtain e0 st2 where a: "add_job ?j st1 = (e0, st2)"
    by (cases "add_job ?j st1")
  obtain e3 st3 where r: "remove_job ?jid st2 = (e3, st3)"
    by (cases "remove_job ?jid st2")
  have res: "add_notification_job list_title run_dt st =
      (case e0 of None \<Rightarrow> (None, st2)
       | Some ConflictingIdError \<Rightarrow>
           (case e3 of Some _ \<Rightarrow> (None, st3) | None \<Rightarrow> (None, snd (add_job ?j st3)))
       | Some x \<Rightarrow> (Some x, st2))"
    unfolding add_notification_job_def Let_def st1_def [symmetric] a
    by (simp add: r split: option.splits exn.splits)
  have e0: "e0 = Some e \<and> e \<noteq> ConflictingIdError"
    using assms unfolding res
    by (cases e0; cases e3) (auto split: exn.splits)
  with add_job_raises [of ?j st1 e st2] a f1 show ?thesis
    by simp
qed

lemma add_notification_job_conflict:
  assumes "distinct (map job_id (scheduler st))"
    and "add_job_faults st = Some ConflictingIdError # fs"
  shows "add_notification_job list_title run_dt st =
     (None, st\<lparr>scheduler := filter (\<lambda>j. job_id j \<noteq> job_id_for list_title) (scheduler st),
               add_job_faults := fs\<rparr>)"
proof -
  let ?jid = "job_id_for list_title"
  let ?st1 = "st\<lparr>scheduler := filter (\<lambda>j. job_id j \<noteq> ?jid) (scheduler st)\<rparr>"
  have st1: "(case get_job ?jid st of None \<Rightarrow> st | Some _ \<Rightarrow> snd (remove_job ?jid st)) = ?st1"
  proof (cases "get_job ?jid st")
    case None
    then have "filter (\<lambda>j. job_id j \<noteq> ?jid) (scheduler st) = scheduler st"
      by (simp add: get_job_None_iff filter_other_ids)
    with None show ?thesis by simp
  next
    case (Some j)
    then show ?thesis using assms(1) by (simp add: snd_remove_job)
  qed
  have a: "add_job \<lparr>job_id = ?jid, run_date = run_dt, bound_title = list_title\<rparr> ?st1 =
      (Some ConflictingIdError, ?st1\<lparr>add_job_faults := fs\<rparr>)"
    using assms(2) by (simp add: add_job_def)
  have "get_job ?jid (?st1\<lparr>add_job_faults := fs\<rparr>) = None"
    by (auto simp: get_job_None_iff)
  then have r: "remove_job ?jid (?st1\<lparr>add_job_faults := fs\<rparr>) =
      (Some JobLookupError, ?st1\<lparr>add_job_faults := fs\<rparr>)"
    by (simp add: remove_job_def)
  show ?thesis
    unfolding add_notification_job_def Let_def st1 a by (simp add: r)
qed

text \<open>C2, as the code has it: the schedule operation writes the new reminder string into
  the list before it calls the scheduler, and the string is set afterwards whatever the
  registration does. The only exception that leaves the operation is one other than
  \<^verbatim>\<open>ConflictingIdError\<close> raised by the first \<^verbatim>\<open>add_job\<close>; an id conflict and every failure of
  the retry after it are swallowed. Whenever the operation returns it has shown the
  "Scheduled" dialog, so a failed registration is not reported. In particular, when the
  first \<^verbatim>\<open>add_job\<close> raises \<^verbatim>\<open>ConflictingIdError\<close> on a job store with one job per id, the
  operation returns, has shown "Scheduled", and no job is pending under the job id of the
  list.\<close>

theorem schedule_sets_reminder_first:
  assumes "map_of (app_lists st) title = Some d" and "now < run_dt"
  shows "map_of (app_lists (snd (schedule_reminder_for_current_list isoformat (Some title) run_dt now st))) title
           = Some (d\<lparr>reminder := isoformat run_dt\<rparr>) \<and>
         (fst (schedule_reminder_for_current_list isoformat (Some title) run_dt now st) = None \<longrightarrow>
            dialogs (snd (schedule_reminder_for_current_list isoformat (Some title) run_dt now st))
              = dialogs st @ [Information ''Scheduled'']) \<and>
         (\<forall>e. fst (schedule_reminder_for_current_list isoformat (Some title) run_dt now st) = Some e \<longrightarrow>
            e \<noteq> ConflictingIdError \<and> (\<exists>fs. add_job_faults st = Some e # fs)) \<and>
         (\<forall>fs. distinct (map job_id (scheduler st)) \<and>
               add_job_faults st = Some ConflictingIdError # fs \<longrightarrow>
            fst (schedule_reminder_for_current_list isoformat (Some title) run_dt now st) = None \<and>
            get_job (job_id_for title)
              (snd (schedule_reminder_for_current_list isoformat (Some title) run_dt now st)) = None \<and>
            dialogs (snd (schedule_reminder_for_current_list isoformat (Some title) run_dt now st))
              = dialogs st @ [Information ''Scheduled''])"
proof -
  let ?R = "schedule_reminder_for_current_list isoformat (Some title) run_dt now st"
  let ?st1 = "st\<lparr>app_lists := AList.update title (d\<lparr>reminder := isoformat run_dt\<rparr>) (app_lists st)\<rparr>"
  obtain e st2 where r: "add_notification_job title (Naive run_dt) ?st1 = (e, st2)"
    by (cases "add_notification_job title (Naive run_dt) ?st1")
  from add_notification_job_frame [of title "Naive run_dt" ?st1] r
  have f: "app_lists st2 = app_lists ?st1" "dialogs st2 = dialogs st" by simp_all
  have m: "map_of (app_lists ?st1) title = Some (d\<lparr>reminder := isoformat run_dt\<rparr>)"
    by (simp add: update_conv')
  have R: "?R = (case e of Some x \<Rightarrow> (Some x, st2)
                 | None \<Rightarrow> (None, show_dialog (Information ''Scheduled'') st2))"
    unfolding schedule_unfold [OF assms] r by (cases e) simp_all
  have c1: "map_of (app_lists (snd ?R)) title = Some (d\<lparr>reminder := isoformat run_dt\<rparr>)"
    unfolding R using f m by (cases e) (simp_all add: show_dialog_def)
  have c2: "dialogs (snd ?R) = dialogs st @ [Information ''Scheduled'']" if "fst ?R = None"
    using that unfolding R using f by (cases e) (simp_all add: show_dialog_def)
  have c3: "x \<noteq> ConflictingIdError \<and> (\<exists>fs. add_job_faults st = Some x # fs)"
    if "fst ?R = Some x" for x
  proof -
    from that have "fst (add_notification_job title (Naive run_dt) ?st1) = Some x"
      unfolding R r by (cases e) simp_all
    from add_notification_job_raises [OF this] show ?thesis by simp
  qed
  have c4: "fst ?R = None \<and> get_job (job_id_for title) (snd ?R) = None \<and>
            dialogs (snd ?R) = dialogs st @ [Information ''Scheduled'']"
    if "distinct (map job_id (scheduler st))" "add_job_faults st = Some ConflictingIdError # fs"
    for fs
  proof -
    have "add_notification_job title (Naive run_dt) ?st1 =
       (None, ?st1\<lparr>scheduler := filter (\<lambda>j. job_id j \<noteq> job_id_for title) (scheduler ?st1),
                    add_job_faults := fs\<rparr>)"
      using that by (intro add_notification_job_conflict) simp_all
    then show ?thesis
      unfolding schedule_unfold [OF assms]
      by (auto simp: show_dialog_def get_job_None_iff)
  qed
  show ?thesis
    using c1 c2 c3 c4 by blast
qed

theorem schedule_sets_reminder_first_witness:
  "map_of (app_lists conflict_app) ''Errands'' = Some \<lparr>tasks = [''Buy milk''], reminder = []\<rparr> \<and>
   (1::nat) < 3 \<and>
   distinct (map job_id (scheduler conflict_app)) \<and>
   add_job_faults conflict_app = [Some ConflictingIdError] \<and>
   map_of (app_lists (snd (schedule_reminder_for_current_list sample_isoformat (Some ''Errands'')
                              3 1 conflict_app))) ''Errands''
     = Some \<lparr>tasks = [''Buy milk''], reminder = ''T000''\<rparr> \<and>
   fst (schedule_reminder_for_current_list sample_isoformat (Some ''Errands'') 3 1 conflict_app)
     = None \<and>
   get_job (job_id_for ''Errands'')
     (snd (schedule_reminder_for_current_list sample_isoformat (Some ''Errands'') 3 1 conflict_app))
     = None \<and>
   dialogs (snd (schedule_reminder_for_current_list sample_isoformat (Some ''Errands'') 3 1
                   conflict_app)) = [Information ''Scheduled''] \<and>
   fst (schedule_reminder_for_current_list sample_isoformat (Some ''Errands'') 3 1
          (conflict_app\<lparr>add_job_faults := [Some SchedulerError]\<rparr>)) = Some SchedulerError \<and>
   map_of (app_lists (snd (schedule_reminder_for_current_list sample_isoformat (Some ''Errands'')
        3 1 (conflict_app\<lparr>add_job_faults := [Some SchedulerError]\<rparr>)))) ''Errands''
     = Some \<lparr>tasks = [''Buy milk''], reminder = ''T000''\<rparr>"
proof -
  have h1: "map_of (app_lists conflict_app) ''Errands'' =
      Some \<lparr>tasks = [''Buy milk''], reminder = []\<rparr>"
    by (simp add: conflict_app_def blank_app_def)
  have h1': "map_of (app_lists (conflict_app\<lparr>add_job_faults := [Some SchedulerError]\<rparr>)) ''Errands'' =
      Some \<lparr>tasks = [''Buy milk''], reminder = []\<rparr>"
    by (simp add: conflict_app_def blank_app_def)
  have h2: "(1::nat) < 3" by simp
  have h3: "distinct (map job_id (scheduler conflict_app))"
    and h4: "add_job_faults conflict_app = [Some ConflictingIdError]"
    and h5: "dialogs conflict_app = []"
    by (simp_all add: conflict_app_def blank_app_def)
  have h6: "fst (schedule_reminder_for_current_list sample_isoformat (Some ''Errands'') 3 1
          (conflict_app\<lparr>add_job_faults := [Some SchedulerError]\<rparr>)) = Some SchedulerError"
    by code_simp
  have a: "map_of (app_lists (snd (schedule_reminder_for_current_list sample_isoformat (Some ''Errands'')
                              3 1 conflict_app))) ''Errands''
     = Some \<lparr>tasks = [''Buy milk''], reminder = ''T000''\<rparr> \<and>
   fst (schedule_reminder_for_current_list sample_isoformat (Some ''Errands'') 3 1 conflict_app)
     = None \<and>
   get_job (job_id_for ''Errands'')
     (snd (schedule_reminder_for_current_list sample_isoformat (Some ''Errands'') 3 1 conflict_app))
     = None \<and>
   dialogs (snd (schedule_reminder_for_current_list sample_isoformat (Some ''Errands'') 3 1
                   conflict_app)) = [Information ''Scheduled'']"
    using schedule_sets_reminder_first [OF h1 h2, of sample_isoformat] h3 h4 h5
    by (simp add: sample_isoformat_def numeral_3_eq_3)
  have b: "map_of (app_lists (snd (schedule_reminder_for_current_list sample_isoformat (Some ''Errands'')
        3 1 (conflict_app\<lparr>add_job_faults := [Some SchedulerError]\<rparr>)))) ''Errands''
     = Some \<lparr>tasks = [''Buy milk''], reminder = ''T000''\<rparr>"
    using schedule_sets_reminder_first [OF h1' h2, of sample_isoformat]
    by (simp add: sample_isoformat_def numeral_3_eq_3)
  show ?thesis
    using a b h1 h2 h3 h4 h6 by blast
qed

text \<open>C2 as stated fails: the registration meets \<^verbatim>\<open>ConflictingIdError\<close>, the retry finds no
  job to remove and gives up; no job is pending afterwards, yet the operation shows
  "Scheduled" and the reminder of the list has changed from empty to the new time.\<close>

theorem schedule_failure_counterexample:
  "schedule_reminder_for_current_list sample_isoformat (Some ''Errands'') 3 1 conflict_app =
     (None, blank_app
        \<lparr>app_lists := [(''Errands'', \<lparr>tasks = [''Buy milk''], reminder = ''T000''\<rparr>)],
         dialogs := [Information ''Scheduled'']\<rparr>) \<and>
   map_of (app_lists conflict_app) ''Errands'' = Some \<lparr>tasks = [''Buy milk''], reminder = []\<rparr>"
  by (simp add: schedule_reminder_for_current_list_def set_reminder_def conflict_app_def
      blank_app_def add_notification_job_def add_job_def remove_job_def get_job_def
      show_dialog_def sample_isoformat_def numeral_3_eq_3 Let_def)

lemma schedule_plain:
  assumes "map_of (app_lists st) title = Some d"
    and "distinct (map job_id (scheduler st))"
    and "add_job_faults st = []"
    and "now < run_dt"
  shows "schedule_reminder_for_current_list isoformat (Some title) run_dt now st =
      (None, show_dialog (Information ''Scheduled'')
         (st\<lparr>app_lists := AList.update title (d\<lparr>reminder := isoformat run_dt\<rparr>) (app_lists st),
            scheduler := filter (\<lambda>j. job_id j \<noteq> job_id_for title) (scheduler st)
              @ [\<lparr>job_id = job_id_for title, run_date = Naive run_dt, bound_title = title\<rparr>]\<rparr>))"
proof -
  let ?st1 = "st\<lparr>app_lists := AList.update title (d\<lparr>reminder := isoformat run_dt\<rparr>) (app_lists st)\<rparr>"
  have "add_notification_job title (Naive run_dt) ?st1 =
     (None, ?st1\<lparr>scheduler :=
        filter (\<lambda>j. job_id j \<noteq> job_id_for title) (scheduler ?st1)
          @ [\<lparr>job_id = job_id_for title, run_date = Naive run_dt, bound_title = title\<rparr>]\<rparr>)"
    using assms(2,3) by (intro add_notification_job_plain) simp_all
  then show ?thesis
    unfolding schedule_unfold [OF assms(1,4)] by simp
qed

text \<open>C4: two schedule operations in a row on a list leave exactly one job under the job
  id of its title, firing at the second time.\<close>

theorem schedule_twice_replaces:
  assumes "map_of (app_lists st) title = Some d"
    and "distinct (map job_id (scheduler st))"
    and "add_job_faults st = []"
    and "now1 < f1" and "now2 < f2"
  shows "fst (schedule_reminder_for_current_list isoformat (Some title) f1 now1 st) = None \<and>
         fst (schedule_reminder_for_current_list isoformat (Some title) f2 now2
               (snd (schedule_reminder_for_current_list isoformat (Some title) f1 now1 st))) = None \<and>
         filter (\<lambda>j. job_id j = job_id_for title)
           (scheduler (snd (schedule_reminder_for_current_list isoformat (Some title) f2 now2
               (snd (schedule_reminder_for_current_list isoformat (Some title) f1 now1 st)))))
           = [\<lparr>job_id = job_id_for title, run_date = Naive f2, bound_title = title\<rparr>]"
proof -
  let ?s1 = "snd (schedule_reminder_for_current_list isoformat (Some title) f1 now1 st)"
  note s1 = schedule_plain [OF assms(1,2,3,4), of isoformat]
  have d1: "distinct (map job_id (scheduler ?s1))"
    using assms(2) by (auto simp: s1 show_dialog_def distinct_map_filter)
  have m1: "map_of (app_lists ?s1) title = Some (d\<lparr>reminder := isoformat f1\<rparr>)"
    by (simp add: s1 show_dialog_def update_conv')
  have a1: "add_job_faults ?s1 = []"
    using assms(3) by (simp add: s1 show_dialog_def)
  note s2 = schedule_plain [OF m1 d1 a1 assms(5), of isoformat]
  show ?thesis
    unfolding s2 by (simp add: s1 show_dialog_def)
qed

theorem schedule_twice_replaces_witness:
  "map_of (app_lists errands_app) ''Errands'' =
     Some \<lparr>tasks = [''Buy milk'', ''Pay bills''], reminder = ''T000''\<rparr> \<and>
   distinct (map job_id (scheduler errands_app)) \<and> add_job_faults errands_app = [] \<and>
   (0::nat) < 5 \<and> (1::nat) < 7 \<and>
   filter (\<lambda>j. job_id j = job_id_for ''Errands'')
     (scheduler (snd (schedule_reminder_for_current_list sample_isoformat (Some ''Errands'') 7 1
        (snd (schedule_reminder_for_current_list sample_isoformat (Some ''Errands'') 5 0
                errands_app)))))
     = [\<lparr>job_id = job_id_for ''Errands'', run_date = Naive 7, bound_title = ''Errands''\<rparr>]"
proof -
  have h1: "map_of (app_lists errands_app) ''Errands'' =
     Some \<lparr>tasks = [''Buy milk'', ''Pay bills''], reminder = ''T000''\<rparr>"
    by (simp add: errands_app_def blank_app_def)
  have h2: "distinct (map job_id (scheduler errands_app))"
    by (simp add: errands_app_def blank_app_def)
  have h3: "add_job_faults errands_app = []"
    by (simp add: errands_app_def blank_app_def)
  have h4: "(0::nat) < 5" and h5: "(1::nat) < 7" by simp_all
  show ?thesis
    using schedule_twice_replaces [OF h1 h2 h3 h4 h5, of sample_isoformat] h1 h2 h3
    by simp
qed

subsection \<open>Renaming a list\<close>

lemma get_job_lists_update:
  "get_job jid (st\<lparr>app_lists := ls\<rparr>) = get_job jid st"
  by (simp add: get_job_def)

lemma rename_no_job:
  assumes "new_title \<noteq> []" and "new_title \<noteq> old_title"
    and "map_of (app_lists st) new_title = None"
    and "map_of (app_lists st) old_title = Some d"
    and "reminder d = [] \<or> get_job (job_id_for old_title) st = None"
  shows "rename_current_list fromisoformat (Some old_title) new_title st =
     (None, st\<lparr>app_lists := AList.update new_title d (AList.delete old_title (app_lists st))\<rparr>)"
  using assms by (auto simp: rename_current_list_def Let_def get_job_lists_update)

lemma rename_with_job:
  assumes "new_title \<noteq> []" and "new_title \<noteq> old_title"
    and "map_of (app_lists st) new_title = None"
    and "map_of (app_lists st) old_title = Some d"
    and "reminder d \<noteq> []" and "get_job (job_id_for old_title) st = Some j"
    and "fromisoformat (reminder d) = Some run_dt"
    and "distinct (map job_id (scheduler st))" and "add_job_faults st = []"
  shows "rename_current_list fromisoformat (Some old_title) new_title st =
     (None, st\<lparr>app_lists := AList.update new_title d (AList.delete old_title (app_lists st)),
               scheduler :=
                 filter (\<lambda>j. job_id j \<noteq> job_id_for new_title)
                   (filter (\<lambda>j. job_id j \<noteq> job_id_for old_title) (scheduler st))
                 @ [\<lparr>job_id = job_id_for new_title, run_date = run_dt, bound_title = new_title\<rparr>]\<rparr>)"
proof -
  let ?st1 = "st\<lparr>app_lists := AList.update new_title d (AList.delete old_title (app_lists st))\<rparr>"
  let ?st2 = "?st1\<lparr>scheduler := filter (\<lambda>j. job_id j \<noteq> job_id_for old_title) (scheduler st)\<rparr>"
  have g: "get_job (job_id_for old_title) ?st1 = Some j"
    using assms(6) by (simp add: get_job_lists_update)
  have r: "remove_job (job_id_for old_title) ?st1 = (None, ?st2)"
    using g assms(8) by (simp add: remove_job_def remove_first_filter)
  have a: "add_notification_job new_title run_dt ?st2 =
     (None, ?st2\<lparr>scheduler :=
        filter (\<lambda>j. job_id j \<noteq> job_id_for new_title) (scheduler ?st2)
          @ [\<lparr>job_id = job_id_for new_title, run_date = run_dt, bound_title = new_title\<rparr>]\<rparr>)"
    using assms(8,9) by (intro add_notification_job_plain) (simp_all add: distinct_map_filter)
  have "rename_current_list fromisoformat (Some old_title) new_title st =
      (None, snd (add_notification_job new_title run_dt ?st2))"
    using assms(1-5,7) g r by (simp add: rename_current_list_def Let_def)
  then show ?thesis
    by (simp add: a)
qed

lemma rename_unparsed:
  assumes "new_title \<noteq> []" and "new_title \<noteq> old_title"
    and "map_of (app_lists st) new_title = None"
    and "map_of (app_lists st) old_title = Some d"
    and "reminder d \<noteq> []" and "get_job (job_id_for old_title) st = Some j"
    and "fromisoformat (reminder d) = None"
    and "distinct (map job_id (scheduler st))"
  shows "rename_current_list fromisoformat (Some old_title) new_title st =
     (None, st\<lparr>app_lists := AList.update new_title d (AList.delete old_title (app_lists st)),
               scheduler := filter (\<lambda>j. job_id j \<noteq> job_id_for old_title) (scheduler st)\<rparr>)"
proof -
  let ?st1 = "st\<lparr>app_lists := AList.update new_title d (AList.delete old_title (app_lists st))\<rparr>"
  let ?st2 = "?st1\<lparr>scheduler := filter (\<lambda>j. job_id j \<noteq> job_id_for old_title) (scheduler st)\<rparr>"
  have g: "get_job (job_id_for old_title) ?st1 = Some j"
    using assms(6) by (simp add: get_job_lists_update)
  have r: "remove_job (job_id_for old_title) ?st1 = (None, ?st2)"
    using g assms(8) by (simp add: remove_job_def remove_first_filter)
  show ?thesis
    using assms(1-5,7) g r by (simp add: rename_current_list_def Let_def)
qed

text \<open>C7, as the code has it: a rename to a new, non-empty title that is not yet a list moves
  the list's data, reminder string included, to the new title. If no job was pending
  under the old title's job id, the scheduler is left as it is. If one was, and the
  reminder string is set and denotes that job's fire time, then afterwards exactly one job
  is pending under the new title's job id, with that fire time, and none under the old
  title's job id unless both titles have the same job id.\<close>

theorem rename_moves_job:
  assumes "new_title \<noteq> []" and "new_title \<noteq> old_title"
    and "map_of (app_lists st) new_title = None"
    and "map_of (app_lists st) old_title = Some d"
    and "distinct (map job_id (scheduler st))" and "add_job_faults st = []"
  shows "fst (rename_current_list fromisoformat (Some old_title) new_title st) = None \<and>
     map_of (app_lists (snd (rename_current_list fromisoformat (Some old_title) new_title st)))
        new_title = Some d \<and>
     map_of (app_lists (snd (rename_current_list fromisoformat (Some old_title) new_title st)))
        old_title = None \<and>
     (get_job (job_id_for old_title) st = None \<longrightarrow>
        scheduler (snd (rename_current_list fromisoformat (Some old_title) new_title st))
          = scheduler st) \<and>
     (\<forall>j. get_job (job_id_for old_title) st = Some j \<and> reminder d \<noteq> [] \<and>
          fromisoformat (reminder d) = Some (run_date j) \<longrightarrow>
        filter (\<lambda>k. job_id k = job_id_for new_title)
          (scheduler (snd (rename_current_list fromisoformat (Some old_title) new_title st)))
          = [\<lparr>job_id = job_id_for new_title, run_date = run_date j, bound_title = new_title\<rparr>] \<and>
        (job_id_for new_title \<noteq> job_id_for old_title \<longrightarrow>
           get_job (job_id_for old_title)
             (snd (rename_current_list fromisoformat (Some old_title) new_title st)) = None))"
proof -
  let ?R = "rename_current_list fromisoformat (Some old_title) new_title st"
  let ?ls = "AList.update new_title d (AList.delete old_title (app_lists st))"
  have ls: "map_of ?ls new_title = Some d" "map_of ?ls old_title = None"
    using assms(2) by (simp_all add: update_conv' delete_conv')
  have frame: "fst ?R = None \<and> app_lists (snd ?R) = ?ls"
  proof (cases "reminder d = [] \<or> get_job (job_id_for old_title) st = None")
    case True
    then show ?thesis using rename_no_job [OF assms(1-4)] by simp
  next
    case False
    then obtain j where j: "reminder d \<noteq> []" "get_job (job_id_for old_title) st = Some j"
      by auto
    show ?thesis
    proof (cases "fromisoformat (reminder d)")
      case None
      then show ?thesis using rename_unparsed [where fromisoformat = fromisoformat, OF assms(1-4) j None assms(5)] by simp
    next
      case (Some run_dt)
      then show ?thesis using rename_with_job [where fromisoformat = fromisoformat, OF assms(1-4) j Some assms(5,6)] by simp
    qed
  qed
  have nojob: "scheduler (snd ?R) = scheduler st" if "get_job (job_id_for old_title) st = None"
    using rename_no_job [OF assms(1-4), of fromisoformat] that by simp
  have moved: "filter (\<lambda>k. job_id k = job_id_for new_title) (scheduler (snd ?R))
          = [\<lparr>job_id = job_id_for new_title, run_date = run_date j, bound_title = new_title\<rparr>] \<and>
        (job_id_for new_title \<noteq> job_id_for old_title \<longrightarrow>
           get_job (job_id_for old_title) (snd ?R) = None)"
    if "get_job (job_id_for old_title) st = Some j" "reminder d \<noteq> []"
       "fromisoformat (reminder d) = Some (run_date j)" for j
    unfolding rename_with_job [where fromisoformat = fromisoformat, OF assms(1-4) that(2,1,3) assms(5,6)]
    by (auto simp: get_job_None_iff)
  show ?thesis
    using frame ls nojob moved by simp
qed

theorem rename_moves_job_witness:
  "get_job (job_id_for ''Groceries'') groceries_app =
     Some \<lparr>job_id = ''reminder__Groceries'', run_date = Naive 3, bound_title = ''Groceries''\<rparr> \<and>
   sample_fromisoformat ''T000'' = Some (Naive 3) \<and>
   filter (\<lambda>k. job_id k = job_id_for ''Shopping'')
     (scheduler (snd (rename_current_list sample_fromisoformat (Some ''Groceries'') ''Shopping''
                        groceries_app)))
     = [\<lparr>job_id = job_id_for ''Shopping'', run_date = Naive 3, bound_title = ''Shopping''\<rparr>] \<and>
   get_job (job_id_for ''Groceries'')
     (snd (rename_current_list sample_fromisoformat (Some ''Groceries'') ''Shopping''
             groceries_app)) = None \<and>
   map_of (app_lists (snd (rename_current_list sample_fromisoformat (Some ''Groceries'')
                             ''Shopping'' groceries_app))) ''Shopping''
     = Some \<lparr>tasks = [''Eggs''], reminder = ''T000''\<rparr> \<and>
   get_job (job_id_for ''a b'') colliding_app = None \<and>
   scheduler (snd (rename_current_list sample_fromisoformat (Some ''a b'') ''c'' colliding_app))
     = scheduler colliding_app"
proof -
  have h1: "''Shopping'' \<noteq> []" and h2: "''Shopping'' \<noteq> ''Groceries''" by simp_all
  have h3: "map_of (app_lists groceries_app) ''Shopping'' = None"
    by (simp add: groceries_app_def blank_app_def)
  have h4: "map_of (app_lists groceries_app) ''Groceries'' =
      Some \<lparr>tasks = [''Eggs''], reminder = ''T000''\<rparr>"
    by (simp add: groceries_app_def blank_app_def)
  have h5: "distinct (map job_id (scheduler groceries_app))"
    by (simp add: groceries_app_def blank_app_def)
  have h6: "add_job_faults groceries_app = []"
    by (simp add: groceries_app_def blank_app_def)
  have g: "get_job (job_id_for ''Groceries'') groceries_app =
     Some \<lparr>job_id = ''reminder__Groceries'', run_date = Naive 3, bound_title = ''Groceries''\<rparr>"
    by (simp add: groceries_app_def blank_app_def get_job_def job_id_for_def)
  have p: "sample_fromisoformat ''T000'' = Some (Naive 3)"
    by (simp add: sample_fromisoformat_def)
  have n: "job_id_for ''Shopping'' \<noteq> job_id_for ''Groceries''"
    by (simp add: job_id_for_def)
  have k1: "''c'' \<noteq> []" and k2: "''c'' \<noteq> ''a b''" by simp_all
  have k3: "map_of (app_lists colliding_app) ''c'' = None"
    by (simp add: colliding_app_def blank_app_def)
  have k4: "map_of (app_lists colliding_app) ''a b'' = Some \<lparr>tasks = [], reminder = ''T0''\<rparr>"
    by (simp add: colliding_app_def blank_app_def)
  have k5: "distinct (map job_id (scheduler colliding_app))"
    by (simp add: colliding_app_def blank_app_def)
  have k6: "add_job_faults colliding_app = []"
    by (simp add: colliding_app_def blank_app_def)
  have kg: "get_job (job_id_for ''a b'') colliding_app = None"
    by (simp add: colliding_app_def blank_app_def get_job_def)
  show ?thesis
    using rename_moves_job [where fromisoformat = sample_fromisoformat, OF h1 h2 h3 h4 h5 h6]
      rename_moves_job [where fromisoformat = sample_fromisoformat, OF k1 k2 k3 k4 k5 k6]
      g p n kg
    by simp
qed

text \<open>C7 as stated fails: the list "a b", with its job pending, is renamed to "a\_b". Both
  titles have the job id \<open>reminder__a_b\<close>, so a job is pending under the old title's job
  id after the rename.\<close>

theorem rename_same_job_id_counterexample:
  "get_job (job_id_for ''a b'') spaced_app =
     Some \<lparr>job_id = ''reminder__a_b'', run_date = Naive 1, bound_title = ''a b''\<rparr> \<and>
   rename_current_list sample_fromisoformat (Some ''a b'') ''a_b'' spaced_app =
     (None, blank_app
        \<lparr>app_lists := [(''a_b'', \<lparr>tasks = [], reminder = ''T0''\<rparr>)],
         scheduler := [\<lparr>job_id = ''reminder__a_b'', run_date = Naive 1, bound_title = ''a_b''\<rparr>]\<rparr>) \<and>
   get_job (job_id_for ''a b'')
     (snd (rename_current_list sample_fromisoformat (Some ''a b'') ''a_b'' spaced_app)) =
     Some \<lparr>job_id = ''reminder__a_b'', run_date = Naive 1, bound_title = ''a_b''\<rparr>"
  by (simp add: rename_current_list_def spaced_app_def blank_app_def get_job_def job_id_for_def
      remove_job_def add_notification_job_def add_job_def sample_fromisoformat_def Let_def)

subsection \<open>The startup pass\<close>

lemma rearm_item_empty:
  "reminder d = [] \<Longrightarrow> rearm_item fromisoformat now title d st = (None, st)"
  by (simp add: rearm_item_def)

lemma later_than_simps:
  "later_than (Naive n) now = Inr (now < n)"
  "later_than (Aware n) now = Inl TypeError"
  by (simp_all add: later_than_def)

lemma later_than_True: "later_than run_dt now = Inr True \<longleftrightarrow> (\<exists>n. run_dt = Naive n \<and> now < n)"
  by (cases run_dt) (simp_all add: later_than_simps)

lemma rearm_item_future:
  assumes "reminder d \<noteq> []" and "fromisoformat (reminder d) = Some run_dt"
    and "later_than run_dt now = Inr True"
    and "distinct (map job_id (scheduler st))" and "add_job_faults st = []"
  shows "rearm_item fromisoformat now title d st =
     (None, st\<lparr>scheduler := filter (\<lambda>j. job_id j \<noteq> job_id_for title) (scheduler st)
                  @ [\<lparr>job_id = job_id_for title, run_date = run_dt, bound_title = title\<rparr>]\<rparr>)"
  using assms
  by (simp add: rearm_item_def rearm_try_def add_notification_job_plain)

lemma rearm_item_missed:
  assumes "reminder d \<noteq> []"
    and "\<not> future_reminder fromisoformat now d"
    and "map_of (app_lists st) title = Some d'"
  shows "rearm_item fromisoformat now title d st =
     (None, st\<lparr>app_lists := AList.update title (d'\<lparr>reminder := []\<rparr>) (app_lists st)\<rparr>)"
proof (cases "fromisoformat (reminder d)")
  case None
  then show ?thesis
    using assms by (simp add: rearm_item_def rearm_try_def set_reminder_present)
next
  case (Some run_dt)
  then have "later_than run_dt now \<noteq> Inr True"
    using assms(1,2) by (simp add: future_reminder_def)
  then show ?thesis
    using assms Some
    by (cases "later_than run_dt now")
       (simp_all add: rearm_item_def rearm_try_def set_reminder_present)
qed

lemma rearm_loop_startup:
  assumes "distinct (map (\<lambda>(t, d). job_id_for t) items)"
    and "\<forall>(t, d) \<in> set items. map_of (app_lists st) t = Some d"
    and "distinct (map job_id (scheduler st))"
    and "\<forall>(t, d) \<in> set items. job_id_for t \<notin> job_id ` set (scheduler st)"
    and "add_job_faults st = []"
  shows "\<exists>st'. rearm_loop fromisoformat now items st = (None, st') \<and>
      scheduler st' = scheduler st @
        map (\<lambda>(t, d). \<lparr>job_id = job_id_for t, run_date = the (fromisoformat (reminder d)),
                        bound_title = t\<rparr>)
          (filter (\<lambda>(t, d). future_reminder fromisoformat now d) items) \<and>
      (\<forall>t. map_of (app_lists st') t =
         (case map_of items t of
            None \<Rightarrow> map_of (app_lists st) t
          | Some d \<Rightarrow> Some (if future_reminder fromisoformat now d then d else d\<lparr>reminder := []\<rparr>))) \<and>
      map fst (app_lists st') = map fst (app_lists st) \<and>
      notifications st' = notifications st \<and> saved st' = saved st \<and> dialogs st' = dialogs st"
  using assms
proof (induction items arbitrary: st)
  case Nil
  then show ?case by simp
next
  case (Cons item items)
  obtain t d where item: "item = (t, d)" by (cases item)
  have live: "map_of (app_lists st) t = Some d"
    using Cons.prems(2) item by simp
  have fresh: "job_id_for t \<notin> job_id ` set (scheduler st)"
    using Cons.prems(4) item by simp
  have other: "t' \<noteq> t \<and> job_id_for t' \<noteq> job_id_for t" if "(t', d') \<in> set items" for t' d'
    using Cons.prems(1) that item by force
  let ?job = "\<lparr>job_id = job_id_for t, run_date = the (fromisoformat (reminder d)), bound_title = t\<rparr>"
  define st1 where "st1 =
    (if future_reminder fromisoformat now d then st\<lparr>scheduler := scheduler st @ [?job]\<rparr>
     else st\<lparr>app_lists := AList.update t (d\<lparr>reminder := []\<rparr>) (app_lists st)\<rparr>)"
  have item_step: "rearm_item fromisoformat now t d st = (None, st1)"
  proof (cases "future_reminder fromisoformat now d")
    case True
    then obtain run_dt where f: "reminder d \<noteq> []" "fromisoformat (reminder d) = Some run_dt"
        "later_than run_dt now = Inr True"
      by (auto simp: future_reminder_def split: option.splits)
    have "filter (\<lambda>j. job_id j \<noteq> job_id_for t) (scheduler st) = scheduler st"
      using fresh by (simp add: filter_other_ids)
    then show ?thesis
      using rearm_item_future [where fromisoformat = fromisoformat and title = t, OF f Cons.prems(3,5)] True f(2) by (simp add: st1_def)
  next
    case False
    show ?thesis
    proof (cases "reminder d = []")
      case True
      have "AList.update t (d\<lparr>reminder := []\<rparr>) (app_lists st) = app_lists st"
        using live True by (simp add: update_triv)
      then show ?thesis using False True by (simp add: st1_def rearm_item_empty)
    next
      case nonempty: False
      show ?thesis
        using rearm_item_missed [where fromisoformat = fromisoformat, OF nonempty False live] False by (simp add: st1_def)
    qed
  qed
  have p1: "distinct (map (\<lambda>(t, d). job_id_for t) items)"
    using Cons.prems(1) by simp
  have p2: "\<forall>(t', d') \<in> set items. map_of (app_lists st1) t' = Some d'"
    using Cons.prems(2) other by (auto simp: st1_def update_conv')
  have p3: "distinct (map job_id (scheduler st1))"
    using Cons.prems(3) fresh by (simp add: st1_def)
  have p4: "\<forall>(t', d') \<in> set items. job_id_for t' \<notin> job_id ` set (scheduler st1)"
    using Cons.prems(4) other by (auto simp: st1_def)
  have p5: "add_job_faults st1 = []"
    using Cons.prems(5) by (simp add: st1_def)
  from Cons.IH [OF p1 p2 p3 p4 p5]
  obtain st' where st': "rearm_loop fromisoformat now items st1 = (None, st')"
     "scheduler st' = scheduler st1 @
        map (\<lambda>(t, d). \<lparr>job_id = job_id_for t, run_date = the (fromisoformat (reminder d)),
                        bound_title = t\<rparr>)
          (filter (\<lambda>(t, d). future_reminder fromisoformat now d) items)"
     "\<forall>t. map_of (app_lists st') t =
         (case map_of items t of
            None \<Rightarrow> map_of (app_lists st1) t
          | Some d \<Rightarrow> Some (if future_reminder fromisoformat now d then d else d\<lparr>reminder := []\<rparr>))"
     "map fst (app_lists st') = map fst (app_lists st1)"
     "notifications st' = notifications st1" "saved st' = saved st1" "dialogs st' = dialogs st1"
    by blast
  have notin: "map_of items t = None"
    using other by (force simp: map_of_eq_None_iff)
  have l: "rearm_loop fromisoformat now (item # items) st = (None, st')"
    using item item_step st'(1) by simp
  have s: "scheduler st' = scheduler st @
        map (\<lambda>(t, d). \<lparr>job_id = job_id_for t, run_date = the (fromisoformat (reminder d)),
                        bound_title = t\<rparr>)
          (filter (\<lambda>(t, d). future_reminder fromisoformat now d) (item # items))"
    using st'(2) item by (simp add: st1_def)
  have m: "map_of (app_lists st') k =
         (case map_of (item # items) k of
            None \<Rightarrow> map_of (app_lists st) k
          | Some d \<Rightarrow> Some (if future_reminder fromisoformat now d then d else d\<lparr>reminder := []\<rparr>))" for k
  proof (cases "k = t")
    case True
    then show ?thesis
      using st'(3) notin live item by (simp add: st1_def update_conv')
  next
    case False
    then show ?thesis
      using st'(3) item by (simp add: st1_def update_conv' split: option.splits)
  qed
  have "t \<in> set (map fst (app_lists st))"
    using map_of_SomeD [OF live] by force
  then have k: "map fst (app_lists st') = map fst (app_lists st)"
    using st'(4) by (simp add: st1_def update_keys)
  have f: "notifications st' = notifications st" "saved st' = saved st" "dialogs st' = dialogs st"
    using st'(5,6,7) by (simp_all add: st1_def)
  show ?case
    using l s m k f by blast
qed

lemma collision_free_keys: "collision_free ls \<Longrightarrow> distinct (map fst ls)"
proof -
  assume "collision_free ls"
  moreover have "map (\<lambda>(t, d). job_id_for t) ls = map job_id_for (map fst ls)"
    by (simp add: case_prod_unfold)
  ultimately have "distinct (map job_id_for (map fst ls))"
    by (simp only: collision_free_def)
  then show ?thesis
    using distinct_map [of job_id_for "map fst ls"] by blast
qed

lemma collision_free_inj:
  assumes "collision_free ls" and "(t, d) \<in> set ls" and "(t', d') \<in> set ls"
    and "job_id_for t = job_id_for t'"
  shows "t = t' \<and> d = d'"
proof -
  have "inj_on (\<lambda>(t, d). job_id_for t) (set ls)"
    using assms(1) by (simp add: collision_free_def distinct_map)
  from inj_onD [OF this _ assms(2,3)] assms(4) show ?thesis by simp
qed

lemma filter_unique:
  "distinct (map g xs) \<Longrightarrow> x \<in> set xs \<Longrightarrow> filter (\<lambda>y. g y = g x) xs = [x]"
proof (induction xs)
  case Nil
  then show ?case by simp
next
  case (Cons a xs)
  show ?case
  proof (cases "a = x")
    case True
    have "g x \<notin> g ` set xs"
      using Cons.prems(1) True by simp
    then have "\<forall>y \<in> set xs. g y \<noteq> g x"
      by (metis imageI)
    then have "filter (\<lambda>y. g y = g x) xs = []"
      by (simp add: filter_empty_conv)
    then show ?thesis using True by simp
  next
    case False
    then have "x \<in> set xs" using Cons.prems(2) by simp
    moreover have "g a \<notin> g ` set xs" using Cons.prems(1) by simp
    then have "g a \<noteq> g x" using \<open>x \<in> set xs\<close> by (metis imageI)
    ultimately show ?thesis using Cons by simp
  qed
qed

subsection \<open>The agreement as a statement on maps\<close>

lemma collision_free_map:
  assumes "collision_free ls" and "map_of ls t = Some d" and "map_of ls t' = Some d'"
    and "job_id_for t = job_id_for t'"
  shows "t = t'"
  using collision_free_inj [OF assms(1) map_of_SomeD [OF assms(2)] map_of_SomeD [OF assms(3)] assms(4)]
  by simp

lemma get_job_Some_iff:
  "distinct (map job_id (scheduler st)) \<Longrightarrow>
   get_job jid st = Some j \<longleftrightarrow> j \<in> set (scheduler st) \<and> job_id j = jid"
proof
  assume "get_job jid st = Some j"
  then show "j \<in> set (scheduler st) \<and> job_id j = jid" by (rule get_job_SomeD)
next
  assume d: "distinct (map job_id (scheduler st))" and j: "j \<in> set (scheduler st) \<and> job_id j = jid"
  then have "get_job jid st \<noteq> None"
    by (auto simp: get_job_None_iff)
  then obtain k where k: "get_job jid st = Some k" by auto
  then have "k \<in> set (scheduler st)" "job_id k = jid"
    using get_job_SomeD by blast+
  then have "k = j"
    using d j by (metis distinct_map inj_onD)
  then show "get_job jid st = Some j" using k by simp
qed

lemma consistent_agreement:
  assumes "collision_free (app_lists st)"
  shows "consistent fromisoformat st \<longleftrightarrow>
         agreement fromisoformat (map_of (app_lists st)) (scheduler st)"
proof
  assume c: "consistent fromisoformat st"
  then have u: "distinct (map job_id (scheduler st))"
    and o: "\<And>j. j \<in> set (scheduler st) \<Longrightarrow>
        job_id j = job_id_for (bound_title j) \<and> map_of (app_lists st) (bound_title j) \<noteq> None"
    and a: "\<And>t d. (t, d) \<in> set (app_lists st) \<Longrightarrow>
        (case get_job (job_id_for t) st of
           None \<Rightarrow> reminder d = []
         | Some j \<Rightarrow> reminder d \<noteq> [] \<and> fromisoformat (reminder d) = Some (run_date j)
               \<and> bound_title j = t)"
    by (auto simp: consistent_def job_ids_unique_def jobs_owned_def reminder_agrees_def)
  have i2: "job_id j = job_id_for (bound_title j) \<and>
        (\<exists>d. map_of (app_lists st) (bound_title j) = Some d \<and> reminder d \<noteq> [] \<and>
             fromisoformat (reminder d) = Some (run_date j))"
    if "j \<in> set (scheduler st)" for j
  proof -
    from o [OF that] obtain d where d: "job_id j = job_id_for (bound_title j)"
        "map_of (app_lists st) (bound_title j) = Some d"
      by auto
    have "get_job (job_id_for (bound_title j)) st = Some j"
      using u that d(1) by (simp add: get_job_Some_iff)
    with a [OF map_of_SomeD [OF d(2)]] d show ?thesis by simp
  qed
  have i3: "\<exists>j \<in> set (scheduler st). bound_title j = t"
    if "map_of (app_lists st) t = Some d" "reminder d \<noteq> []" for t d
  proof -
    from a [OF map_of_SomeD [OF that(1)]] that(2)
    obtain j where "get_job (job_id_for t) st = Some j" "bound_title j = t"
      by (cases "get_job (job_id_for t) st") auto
    then show ?thesis using get_job_SomeD by blast
  qed
  show "agreement fromisoformat (map_of (app_lists st)) (scheduler st)"
    unfolding agreement_def using u i2 i3 by blast
next
  assume g: "agreement fromisoformat (map_of (app_lists st)) (scheduler st)"
  then have u: "distinct (map job_id (scheduler st))"
    and i2: "\<And>j. j \<in> set (scheduler st) \<Longrightarrow>
        job_id j = job_id_for (bound_title j) \<and>
        (\<exists>d. map_of (app_lists st) (bound_title j) = Some d \<and> reminder d \<noteq> [] \<and>
             fromisoformat (reminder d) = Some (run_date j))"
    and i3: "\<And>t d. map_of (app_lists st) t = Some d \<Longrightarrow> reminder d \<noteq> [] \<Longrightarrow>
        \<exists>j \<in> set (scheduler st). bound_title j = t"
    unfolding agreement_def by blast+
  have keys: "distinct (map fst (app_lists st))"
    using assms by (rule collision_free_keys)
  have owned: "jobs_owned st"
    unfolding jobs_owned_def using i2 by fastforce
  have agrees: "(case get_job (job_id_for t) st of
           None \<Rightarrow> reminder d = []
         | Some j \<Rightarrow> reminder d \<noteq> [] \<and> fromisoformat (reminder d) = Some (run_date j)
               \<and> bound_title j = t)"
    if "(t, d) \<in> set (app_lists st)" for t d
  proof -
    have m: "map_of (app_lists st) t = Some d"
      using keys that by simp
    show ?thesis
    proof (cases "get_job (job_id_for t) st")
      case None
      have "reminder d = []"
      proof (rule ccontr)
        assume "reminder d \<noteq> []"
        from i3 [OF m this] obtain j where "j \<in> set (scheduler st)" "bound_title j = t" by blast
        with i2 [of j] have "job_id_for t \<in> job_id ` set (scheduler st)" by force
        with None show False by (simp add: get_job_None_iff)
      qed
      with None show ?thesis by simp
    next
      case (Some j)
      then have j: "j \<in> set (scheduler st)" "job_id j = job_id_for t"
        using get_job_SomeD by blast+
      from i2 [OF j(1)] obtain d' where d': "job_id j = job_id_for (bound_title j)"
          "map_of (app_lists st) (bound_title j) = Some d'" "reminder d' \<noteq> []"
          "fromisoformat (reminder d') = Some (run_date j)"
        by blast
      have "bound_title j = t"
        using collision_free_map [OF assms d'(2) m] d'(1) j(2) by simp
      with d' m Some show ?thesis by simp
    qed
  qed
  show "consistent fromisoformat st"
    unfolding consistent_def job_ids_unique_def reminder_agrees_def
    using u owned agrees by blast
qed

lemma agreementI:
  assumes "distinct (map job_id js)"
    and "\<And>j. j \<in> set js \<Longrightarrow> job_id j = job_id_for (bound_title j) \<and>
        (\<exists>d. m (bound_title j) = Some d \<and> reminder d \<noteq> [] \<and>
             fromisoformat (reminder d) = Some (run_date j))"
    and "\<And>t d. m t = Some d \<Longrightarrow> reminder d \<noteq> [] \<Longrightarrow> \<exists>j \<in> set js. bound_title j = t"
  shows "agreement fromisoformat m js"
  unfolding agreement_def using assms by blast

lemma agreement_distinct: "agreement fromisoformat m js \<Longrightarrow> distinct (map job_id js)"
  by (simp add: agreement_def)

lemma agreement_job:
  "agreement fromisoformat m js \<Longrightarrow> j \<in> set js \<Longrightarrow>
   job_id j = job_id_for (bound_title j) \<and>
   (\<exists>d. m (bound_title j) = Some d \<and> reminder d \<noteq> [] \<and>
        fromisoformat (reminder d) = Some (run_date j))"
  unfolding agreement_def by blast

lemma agreement_armed:
  "agreement fromisoformat m js \<Longrightarrow> m t = Some d \<Longrightarrow> reminder d \<noteq> [] \<Longrightarrow>
   \<exists>j \<in> set js. bound_title j = t"
  unfolding agreement_def by blast

lemma agreement_clear:
  assumes g: "agreement fromisoformat m js"
    and cf: "\<And>t t' d d'. m t = Some d \<Longrightarrow> m t' = Some d' \<Longrightarrow>
               job_id_for t = job_id_for t' \<Longrightarrow> t = t'"
    and t: "m t = Some d" and r: "reminder d' = []"
  shows "agreement fromisoformat (m(t \<mapsto> d')) (filter (\<lambda>j. job_id j \<noteq> job_id_for t) js)"
proof (rule agreementI)
  show "distinct (map job_id (filter (\<lambda>j. job_id j \<noteq> job_id_for t) js))"
    using agreement_distinct [OF g] by (rule distinct_map_filter)
next
  fix j assume "j \<in> set (filter (\<lambda>j. job_id j \<noteq> job_id_for t) js)"
  then have j: "j \<in> set js" "job_id j \<noteq> job_id_for t" by simp_all
  from agreement_job [OF g j(1)] j(2) have "bound_title j \<noteq> t" by auto
  with agreement_job [OF g j(1)]
  show "job_id j = job_id_for (bound_title j) \<and>
        (\<exists>d. (m(t \<mapsto> d')) (bound_title j) = Some d \<and> reminder d \<noteq> [] \<and>
             fromisoformat (reminder d) = Some (run_date j))"
    by simp
next
  fix t' d'' assume a: "(m(t \<mapsto> d')) t' = Some d''" "reminder d'' \<noteq> []"
  then have ne: "t' \<noteq> t" using r by auto
  then have m: "m t' = Some d''" using a(1) by simp
  from agreement_armed [OF g m a(2)] obtain j where j: "j \<in> set js" "bound_title j = t'"
    by blast
  have "job_id j \<noteq> job_id_for t"
    using agreement_job [OF g j(1)] j(2) cf [OF m t] ne by auto
  then show "\<exists>j \<in> set (filter (\<lambda>j. job_id j \<noteq> job_id_for t) js). bound_title j = t'"
    using j by auto
qed

lemma agreement_replace:
  assumes g: "agreement fromisoformat m js"
    and cf: "\<And>t t' d d'. m t = Some d \<Longrightarrow> m t' = Some d' \<Longrightarrow>
               job_id_for t = job_id_for t' \<Longrightarrow> t = t'"
    and t: "m t = Some d" and r: "reminder d' \<noteq> []"
    and p: "fromisoformat (reminder d') = Some run_dt"
  shows "agreement fromisoformat (m(t \<mapsto> d'))
           (filter (\<lambda>j. job_id j \<noteq> job_id_for t) js
              @ [\<lparr>job_id = job_id_for t, run_date = run_dt, bound_title = t\<rparr>])"
proof (rule agreementI)
  show "distinct (map job_id (filter (\<lambda>j. job_id j \<noteq> job_id_for t) js
              @ [\<lparr>job_id = job_id_for t, run_date = run_dt, bound_title = t\<rparr>]))"
    using agreement_distinct [OF g] by (auto simp: distinct_map_filter)
next
  fix j assume "j \<in> set (filter (\<lambda>j. job_id j \<noteq> job_id_for t) js
              @ [\<lparr>job_id = job_id_for t, run_date = run_dt, bound_title = t\<rparr>])"
  then consider "j \<in> set js" "job_id j \<noteq> job_id_for t"
    | "j = \<lparr>job_id = job_id_for t, run_date = run_dt, bound_title = t\<rparr>"
    by auto
  then show "job_id j = job_id_for (bound_title j) \<and>
        (\<exists>d. (m(t \<mapsto> d')) (bound_title j) = Some d \<and> reminder d \<noteq> [] \<and>
             fromisoformat (reminder d) = Some (run_date j))"
  proof cases
    case 1
    from agreement_job [OF g 1(1)] 1(2) have "bound_title j \<noteq> t" by auto
    with agreement_job [OF g 1(1)] show ?thesis by simp
  next
    case 2
    then show ?thesis using r p by simp
  qed
next
  fix t' d'' assume a: "(m(t \<mapsto> d')) t' = Some d''" "reminder d'' \<noteq> []"
  show "\<exists>j \<in> set (filter (\<lambda>j. job_id j \<noteq> job_id_for t) js
              @ [\<lparr>job_id = job_id_for t, run_date = run_dt, bound_title = t\<rparr>]). bound_title j = t'"
  proof (cases "t' = t")
    case True
    then show ?thesis by simp
  next
    case False
    then have m: "m t' = Some d''" using a(1) by simp
    from agreement_armed [OF g m a(2)] obtain j where j: "j \<in> set js" "bound_title j = t'"
      by blast
    have "job_id j \<noteq> job_id_for t"
      using agreement_job [OF g j(1)] j(2) cf [OF m t] False by auto
    then show ?thesis using j by auto
  qed
qed

lemma agreement_delete_idle:
  assumes g: "agreement fromisoformat m js" and t: "m t = Some d" and r: "reminder d = []"
  shows "agreement fromisoformat (m(t := None)) js"
proof (rule agreementI)
  show "distinct (map job_id js)" using g by (rule agreement_distinct)
next
  fix j assume j: "j \<in> set js"
  from agreement_job [OF g j] t r have "bound_title j \<noteq> t" by auto
  with agreement_job [OF g j]
  show "job_id j = job_id_for (bound_title j) \<and>
        (\<exists>d. (m(t := None)) (bound_title j) = Some d \<and> reminder d \<noteq> [] \<and>
             fromisoformat (reminder d) = Some (run_date j))"
    by simp
next
  fix t' d' assume a: "(m(t := None)) t' = Some d'" "reminder d' \<noteq> []"
  then have "m t' = Some d'" by (auto split: if_splits)
  from agreement_armed [OF g this a(2)]
  show "\<exists>j \<in> set js. bound_title j = t'" .
qed

lemma agreement_delete:
  assumes g: "agreement fromisoformat m js"
    and cf: "\<And>t t' d d'. m t = Some d \<Longrightarrow> m t' = Some d' \<Longrightarrow>
               job_id_for t = job_id_for t' \<Longrightarrow> t = t'"
    and t: "m t = Some d"
  shows "agreement fromisoformat (m(t := None)) (filter (\<lambda>j. job_id j \<noteq> job_id_for t) js)"
proof (rule agreementI)
  show "distinct (map job_id (filter (\<lambda>j. job_id j \<noteq> job_id_for t) js))"
    using agreement_distinct [OF g] by (rule distinct_map_filter)
next
  fix j assume "j \<in> set (filter (\<lambda>j. job_id j \<noteq> job_id_for t) js)"
  then have j: "j \<in> set js" "job_id j \<noteq> job_id_for t" by simp_all
  from agreement_job [OF g j(1)] j(2) have "bound_title j \<noteq> t" by auto
  with agreement_job [OF g j(1)]
  show "job_id j = job_id_for (bound_title j) \<and>
        (\<exists>d. (m(t := None)) (bound_title j) = Some d \<and> reminder d \<noteq> [] \<and>
             fromisoformat (reminder d) = Some (run_date j))"
    by simp
next
  fix t' d' assume a: "(m(t := None)) t' = Some d'" "reminder d' \<noteq> []"
  then have ne: "t' \<noteq> t" and m: "m t' = Some d'" by (auto split: if_splits)
  from agreement_armed [OF g m a(2)] obtain j where j: "j \<in> set js" "bound_title j = t'"
    by blast
  have "job_id j \<noteq> job_id_for t"
    using agreement_job [OF g j(1)] j(2) cf [OF m t] ne by auto
  then show "\<exists>j \<in> set (filter (\<lambda>j. job_id j \<noteq> job_id_for t) js). bound_title j = t'"
    using j by auto
qed

lemma agreement_same_jobs:
  assumes g: "agreement fromisoformat m js" and s: "set js' = set js"
    and d: "distinct (map job_id js')"
  shows "agreement fromisoformat m js'"
  using g d unfolding agreement_def s by blast

text \<open>C6, as the code has it: at startup, when no job is pending, on a store in which no two
  titles have the same job id and with a scheduler that raises nothing, the rearm pass
  returns and leaves, for every list whose reminder is set, parses to a naive datetime
  and lies strictly after \<open>now\<close>, exactly one job under the list's job id, firing at that
  time, and keeps the reminder. For every other list it leaves no job and an empty
  reminder: when the reminder was not set, does not parse, is not after \<open>now\<close>, or parses
  to an offset-aware datetime, whose comparison with \<open>now\<close> raises \<^verbatim>\<open>TypeError\<close>. It
  registers no further job and sends no notification, and store and scheduler agree when
  it ends.\<close>

theorem rearm_at_startup:
  assumes "scheduler st = []" and "add_job_faults st = []" and "collision_free (app_lists st)"
  shows "fst (schedule_existing_reminders fromisoformat now st) = None \<and>
     notifications (snd (schedule_existing_reminders fromisoformat now st)) = notifications st \<and>
     consistent fromisoformat (snd (schedule_existing_reminders fromisoformat now st)) \<and>
     length (scheduler (snd (schedule_existing_reminders fromisoformat now st))) =
       length (filter (\<lambda>(t, d). future_reminder fromisoformat now d) (app_lists st)) \<and>
     (\<forall>(t, d) \<in> set (app_lists st).
        (\<forall>n. reminder d \<noteq> [] \<and> fromisoformat (reminder d) = Some (Naive n) \<and> now < n \<longrightarrow>
           filter (\<lambda>j. job_id j = job_id_for t)
             (scheduler (snd (schedule_existing_reminders fromisoformat now st)))
             = [\<lparr>job_id = job_id_for t, run_date = Naive n, bound_title = t\<rparr>] \<and>
           map_of (app_lists (snd (schedule_existing_reminders fromisoformat now st))) t = Some d) \<and>
        (reminder d = [] \<or> fromisoformat (reminder d) = None \<or>
         (\<exists>n. fromisoformat (reminder d) = Some (Naive n) \<and> n \<le> now) \<or>
         (\<exists>n. fromisoformat (reminder d) = Some (Aware n)) \<longrightarrow>
           get_job (job_id_for t) (snd (schedule_existing_reminders fromisoformat now st)) = None \<and>
           map_of (app_lists (snd (schedule_existing_reminders fromisoformat now st))) t
             = Some (d\<lparr>reminder := []\<rparr>)))"
proof -
  let ?ls = "app_lists st"
  let ?fut = "\<lambda>(t, d). future_reminder fromisoformat now d"
  let ?job = "\<lambda>(t, d). \<lparr>job_id = job_id_for t, run_date = the (fromisoformat (reminder d)),
                        bound_title = t\<rparr>"
  have keys: "distinct (map fst ?ls)"
    using assms(3) by (rule collision_free_keys)
  have a1: "distinct (map (\<lambda>(t, d). job_id_for t) ?ls)"
    using assms(3) by (simp add: collision_free_def)
  have a2: "\<forall>(t, d) \<in> set ?ls. map_of (app_lists st) t = Some d"
    using keys by auto
  have a3: "distinct (map job_id (scheduler st))"
    and a4: "\<forall>(t, d) \<in> set ?ls. job_id_for t \<notin> job_id ` set (scheduler st)"
    using assms(1) by simp_all
  from rearm_loop_startup [where fromisoformat = fromisoformat and now = now,
      OF a1 a2 a3 a4 assms(2)]
  obtain st' where st': "schedule_existing_reminders fromisoformat now st = (None, st')"
    "scheduler st' = map ?job (filter ?fut ?ls)"
    "\<forall>t. map_of (app_lists st') t =
         (case map_of ?ls t of
            None \<Rightarrow> map_of ?ls t
          | Some d \<Rightarrow> Some (if future_reminder fromisoformat now d then d else d\<lparr>reminder := []\<rparr>))"
    "notifications st' = notifications st"
    "map fst (app_lists st') = map fst ?ls"
    unfolding schedule_existing_reminders_def using assms(1) by auto
  have ids: "map job_id (scheduler st') = map (\<lambda>(t, d). job_id_for t) (filter ?fut ?ls)"
    by (simp add: st'(2) case_prod_beta)
  have dist: "distinct (map (\<lambda>(t, d). job_id_for t) (filter ?fut ?ls))"
    using a1 by (rule distinct_map_filter)
  have armed: "filter (\<lambda>j. job_id j = job_id_for t) (scheduler st')
             = [\<lparr>job_id = job_id_for t, run_date = Naive n, bound_title = t\<rparr>] \<and>
           map_of (app_lists st') t = Some d"
    if "(t, d) \<in> set ?ls" "reminder d \<noteq> []" "fromisoformat (reminder d) = Some (Naive n)"
       "now < n" for t d n
  proof -
    have fut: "future_reminder fromisoformat now d"
      using that(2,3,4) by (simp add: future_reminder_def later_than_simps)
    then have mem: "(t, d) \<in> set (filter ?fut ?ls)"
      using that(1) by simp
    have "filter (\<lambda>j. job_id j = job_id_for t) (scheduler st') =
        map ?job (filter (\<lambda>y. (\<lambda>(t, d). job_id_for t) y = (\<lambda>(t, d). job_id_for t) (t, d))
                    (filter ?fut ?ls))"
      unfolding st'(2) filter_map by (simp add: comp_def case_prod_beta)
    also have "\<dots> = map ?job [(t, d)]"
      using filter_unique [OF dist mem] by simp
    finally have "filter (\<lambda>j. job_id j = job_id_for t) (scheduler st')
             = [\<lparr>job_id = job_id_for t, run_date = Naive n, bound_title = t\<rparr>]"
      using that(3) by simp
    moreover have "map_of (app_lists st') t = Some d"
      using st'(3) a2 that(1) fut by auto
    ultimately show ?thesis by simp
  qed
  have missed: "get_job (job_id_for t) st' = None \<and>
           map_of (app_lists st') t = Some (d\<lparr>reminder := []\<rparr>)"
    if "(t, d) \<in> set ?ls"
       "reminder d = [] \<or> fromisoformat (reminder d) = None \<or>
         (\<exists>n. fromisoformat (reminder d) = Some (Naive n) \<and> n \<le> now) \<or>
         (\<exists>n. fromisoformat (reminder d) = Some (Aware n))" for t d
  proof -
    have nfut: "\<not> future_reminder fromisoformat now d"
      using that(2) by (auto simp: future_reminder_def later_than_simps)
    have "job_id_for t \<notin> job_id ` set (scheduler st')"
    proof
      assume "job_id_for t \<in> job_id ` set (scheduler st')"
      then obtain t' d' where j: "(t', d') \<in> set ?ls" "future_reminder fromisoformat now d'"
          "job_id_for t' = job_id_for t"
        unfolding st'(2) by auto
      from collision_free_inj [OF assms(3) j(1) that(1) j(3)] j(2) nfut
      show False by simp
    qed
    then have "get_job (job_id_for t) st' = None"
      by (simp add: get_job_None_iff)
    moreover have "map_of (app_lists st') t = Some (d\<lparr>reminder := []\<rparr>)"
      using st'(3) a2 that(1) nfut by auto
    ultimately show ?thesis by simp
  qed
  have len: "length (scheduler st') = length (filter ?fut ?ls)"
    by (simp add: st'(2))
  have "map (\<lambda>(t, d). job_id_for t) (app_lists st') = map job_id_for (map fst (app_lists st'))"
    by (simp add: case_prod_unfold)
  also have "\<dots> = map (\<lambda>(t, d). job_id_for t) ?ls"
    by (simp add: st'(5) case_prod_unfold)
  finally have cf': "collision_free (app_lists st')"
    using a1 by (simp add: collision_free_def)
  have "agreement fromisoformat (map_of (app_lists st')) (scheduler st')"
  proof (rule agreementI)
    show "distinct (map job_id (scheduler st'))"
      using dist by (simp add: ids)
  next
    fix j assume "j \<in> set (scheduler st')"
    then obtain t d where j: "(t, d) \<in> set ?ls" "future_reminder fromisoformat now d"
        "j = \<lparr>job_id = job_id_for t, run_date = the (fromisoformat (reminder d)),
                        bound_title = t\<rparr>"
      unfolding st'(2) by auto
    have "map_of (app_lists st') t = Some d"
      using st'(3) a2 j(1,2) by auto
    moreover have "reminder d \<noteq> [] \<and> fromisoformat (reminder d) = Some (run_date j)"
      using j(2,3) by (auto simp: future_reminder_def split: option.splits)
    ultimately show "job_id j = job_id_for (bound_title j) \<and>
        (\<exists>d. map_of (app_lists st') (bound_title j) = Some d \<and> reminder d \<noteq> [] \<and>
             fromisoformat (reminder d) = Some (run_date j))"
      using j(3) by simp
  next
    fix t d' assume a: "map_of (app_lists st') t = Some d'" "reminder d' \<noteq> []"
    then obtain d where d: "map_of ?ls t = Some d"
        "d' = (if future_reminder fromisoformat now d then d else d\<lparr>reminder := []\<rparr>)"
      using st'(3) by (cases "map_of ?ls t") auto
    then have "future_reminder fromisoformat now d" using a(2) by (auto split: if_splits)
    then have "(t, d) \<in> set (filter ?fut ?ls)"
      using map_of_SomeD [OF d(1)] by simp
    then show "\<exists>j \<in> set (scheduler st'). bound_title j = t"
      unfolding st'(2) by force
  qed
  then have cons: "consistent fromisoformat st'"
    using consistent_agreement [OF cf'] by simp
  show ?thesis
    unfolding st'(1) using st'(4) cons len armed missed by auto
qed

theorem rearm_at_startup_witness:
  "scheduler startup_app = [] \<and> add_job_faults startup_app = [] \<and>
   collision_free (app_lists startup_app) \<and>
   filter (\<lambda>j. job_id j = job_id_for ''Work'')
     (scheduler (snd (schedule_existing_reminders sample_fromisoformat 2 startup_app)))
     = [\<lparr>job_id = job_id_for ''Work'', run_date = Naive 5, bound_title = ''Work''\<rparr>] \<and>
   map_of (app_lists (snd (schedule_existing_reminders sample_fromisoformat 2 startup_app))) ''Work''
     = Some \<lparr>tasks = [''Mail''], reminder = ''T00000''\<rparr> \<and>
   get_job (job_id_for ''Home'')
     (snd (schedule_existing_reminders sample_fromisoformat 2 startup_app)) = None \<and>
   map_of (app_lists (snd (schedule_existing_reminders sample_fromisoformat 2 startup_app))) ''Home''
     = Some \<lparr>tasks = [], reminder = []\<rparr> \<and>
   get_job (job_id_for ''Misc'')
     (snd (schedule_existing_reminders sample_fromisoformat 2 startup_app)) = None \<and>
   map_of (app_lists (snd (schedule_existing_reminders sample_fromisoformat 2 startup_app))) ''Misc''
     = Some \<lparr>tasks = [], reminder = []\<rparr> \<and>
   sample_fromisoformat ''Z000000000'' = Some (Aware 9) \<and>
   get_job (job_id_for ''Zone'')
     (snd (schedule_existing_reminders sample_fromisoformat 2 startup_app)) = None \<and>
   map_of (app_lists (snd (schedule_existing_reminders sample_fromisoformat 2 startup_app))) ''Zone''
     = Some \<lparr>tasks = [], reminder = []\<rparr> \<and>
   length (scheduler (snd (schedule_existing_reminders sample_fromisoformat 2 startup_app))) = 1"
proof -
  have h1: "scheduler startup_app = []" and h2: "add_job_faults startup_app = []"
    by (simp_all add: startup_app_def blank_app_def)
  have h3: "collision_free (app_lists startup_app)"
    by (simp add: startup_app_def blank_app_def collision_free_def job_id_for_def)
  have ls: "app_lists startup_app =
      [(''Work'', \<lparr>tasks = [''Mail''], reminder = ''T00000''\<rparr>),
       (''Home'', \<lparr>tasks = [], reminder = ''T0''\<rparr>),
       (''Misc'', \<lparr>tasks = [], reminder = ''soon''\<rparr>),
       (''Idle'', \<lparr>tasks = [], reminder = []\<rparr>),
       (''Zone'', \<lparr>tasks = [], reminder = ''Z000000000''\<rparr>)]"
    by (simp add: startup_app_def blank_app_def)
  have p: "sample_fromisoformat ''T00000'' = Some (Naive 5)" "sample_fromisoformat ''T0'' = Some (Naive 1)"
    "sample_fromisoformat ''soon'' = None" "sample_fromisoformat [] = None"
    "sample_fromisoformat ''Z000000000'' = Some (Aware 9)"
    by (simp_all add: sample_fromisoformat_def)
  show ?thesis
    using rearm_at_startup [where fromisoformat = sample_fromisoformat and now = 2,
        OF h1 h2 h3] h1 h2 h3
    by (simp add: ls p future_reminder_def later_than_simps)
qed

text \<open>C6 as stated fails, in two ways. The lists "a b" and "a\_b" both carry a reminder in
  the future, at times 1 and 2: the pass registers the job of the second under the id of
  the first and removes the first, so that no job fires at time 1. And the reminder of
  the list "Zone" parses, to an offset-aware datetime: at every \<open>now\<close> the comparison raises,
  the pass clears the reminder and registers no job for the list.\<close>

theorem rearm_collision_counterexample:
  "scheduler colliding_app = [] \<and>
   map_of (app_lists colliding_app) ''a b'' = Some \<lparr>tasks = [], reminder = ''T0''\<rparr> \<and>
   sample_fromisoformat ''T0'' = Some (Naive 1) \<and>
   filter (\<lambda>j. job_id j = job_id_for ''a b'')
     (scheduler (snd (schedule_existing_reminders sample_fromisoformat 0 colliding_app)))
     = [\<lparr>job_id = ''reminder__a_b'', run_date = Naive 2, bound_title = ''a_b''\<rparr>] \<and>
   scheduler startup_app = [] \<and>
   map_of (app_lists startup_app) ''Zone'' = Some \<lparr>tasks = [], reminder = ''Z000000000''\<rparr> \<and>
   sample_fromisoformat ''Z000000000'' = Some (Aware 9) \<and>
   map_of (app_lists (snd (schedule_existing_reminders sample_fromisoformat 2 startup_app))) ''Zone''
     = Some \<lparr>tasks = [], reminder = []\<rparr> \<and>
   scheduler (snd (schedule_existing_reminders sample_fromisoformat 2 startup_app))
     = [\<lparr>job_id = ''reminder__Work'', run_date = Naive 5, bound_title = ''Work''\<rparr>]"
  by code_simp

subsection \<open>The agreement along a run\<close>

lemma agreement_rename_idle:
  assumes g: "agreement fromisoformat m js"
    and old: "m old_title = Some d" and r: "reminder d = []" and new: "m new_title = None"
  shows "agreement fromisoformat (m(old_title := None, new_title \<mapsto> d)) js"
proof (rule agreementI)
  show "distinct (map job_id js)" using g by (rule agreement_distinct)
next
  fix j assume j: "j \<in> set js"
  from agreement_job [OF g j] old r new
  have "bound_title j \<noteq> old_title" "bound_title j \<noteq> new_title" by auto
  with agreement_job [OF g j]
  show "job_id j = job_id_for (bound_title j) \<and>
        (\<exists>d'. (m(old_title := None, new_title \<mapsto> d)) (bound_title j) = Some d' \<and>
             reminder d' \<noteq> [] \<and> fromisoformat (reminder d') = Some (run_date j))"
    by simp
next
  fix t d' assume a: "(m(old_title := None, new_title \<mapsto> d)) t = Some d'" "reminder d' \<noteq> []"
  then have "m t = Some d'" using r by (auto split: if_splits)
  from agreement_armed [OF g this a(2)]
  show "\<exists>j \<in> set js. bound_title j = t" .
qed

lemma agreement_rename:
  assumes g: "agreement fromisoformat m js"
    and cf: "\<And>t t' d d'. m t = Some d \<Longrightarrow> m t' = Some d' \<Longrightarrow>
               job_id_for t = job_id_for t' \<Longrightarrow> t = t'"
    and cf': "\<And>t d'. t \<noteq> old_title \<Longrightarrow> t \<noteq> new_title \<Longrightarrow> m t = Some d' \<Longrightarrow>
               job_id_for t \<noteq> job_id_for new_title"
    and old: "m old_title = Some d" and new: "m new_title = None"
    and r: "reminder d \<noteq> []" and p: "fromisoformat (reminder d) = Some run_dt"
  shows "agreement fromisoformat (m(old_title := None, new_title \<mapsto> d))
           (filter (\<lambda>j. job_id j \<noteq> job_id_for new_title)
              (filter (\<lambda>j. job_id j \<noteq> job_id_for old_title) js)
            @ [\<lparr>job_id = job_id_for new_title, run_date = run_dt, bound_title = new_title\<rparr>])"
    (is "agreement _ ?m' (?kept @ [?job])")
proof (rule agreementI)
  show "distinct (map job_id (?kept @ [?job]))"
    using agreement_distinct [OF g] by (auto simp: distinct_map_filter)
next
  fix j assume "j \<in> set (?kept @ [?job])"
  then consider "j \<in> set js" "job_id j \<noteq> job_id_for old_title" "job_id j \<noteq> job_id_for new_title"
    | "j = ?job"
    by auto
  then show "job_id j = job_id_for (bound_title j) \<and>
        (\<exists>d'. ?m' (bound_title j) = Some d' \<and> reminder d' \<noteq> [] \<and>
             fromisoformat (reminder d') = Some (run_date j))"
  proof cases
    case 1
    from agreement_job [OF g 1(1)] 1(2,3)
    have "bound_title j \<noteq> old_title" "bound_title j \<noteq> new_title" by auto
    with agreement_job [OF g 1(1)] show ?thesis by simp
  next
    case 2
    then show ?thesis using r p by simp
  qed
next
  fix t d' assume a: "?m' t = Some d'" "reminder d' \<noteq> []"
  show "\<exists>j \<in> set (?kept @ [?job]). bound_title j = t"
  proof (cases "t = new_title")
    case True
    then show ?thesis by simp
  next
    case False
    then have ne: "t \<noteq> old_title" and m: "m t = Some d'"
      using a(1) by (auto split: if_splits)
    from agreement_armed [OF g m a(2)] obtain j where j: "j \<in> set js" "bound_title j = t"
      by blast
    have "job_id j \<noteq> job_id_for old_title"
      using agreement_job [OF g j(1)] j(2) cf [OF m old] ne by auto
    moreover have "job_id j \<noteq> job_id_for new_title"
      using agreement_job [OF g j(1)] j(2) cf' [OF ne False m] by auto
    ultimately show ?thesis using j by auto
  qed
qed

lemma show_dialog_frame:
  "app_lists (show_dialog x st) = app_lists st"
  "scheduler (show_dialog x st) = scheduler st"
  "add_job_faults (show_dialog x st) = add_job_faults st"
  by (simp_all add: show_dialog_def)

lemma collision_free_rule:
  assumes "collision_free (app_lists st)"
  shows "map_of (app_lists st) t = Some d \<Longrightarrow> map_of (app_lists st) t' = Some d' \<Longrightarrow>
         job_id_for t = job_id_for t' \<Longrightarrow> t = t'"
  using collision_free_map [OF assms] by blast

lemma schedule_keeps_agreement:
  assumes g: "agreement fromisoformat (map_of (app_lists st)) (scheduler st)"
    and cf: "collision_free (app_lists st)"
    and nf: "add_job_faults st = []"
    and codec: "\<And>dt. isoformat dt \<noteq> [] \<and> fromisoformat (isoformat dt) = Some (Naive dt)"
  shows "agreement fromisoformat
           (map_of (app_lists (snd (schedule_reminder_for_current_list isoformat item run_dt now st))))
           (scheduler (snd (schedule_reminder_for_current_list isoformat item run_dt now st))) \<and>
         add_job_faults (snd (schedule_reminder_for_current_list isoformat item run_dt now st)) = []"
proof (cases item)
  case None
  then show ?thesis
    using g nf by (simp add: schedule_reminder_for_current_list_def show_dialog_frame)
next
  case (Some title)
  show ?thesis
  proof (cases "run_dt \<le> now")
    case True
    then show ?thesis
      using g nf Some by (simp add: schedule_reminder_for_current_list_def show_dialog_frame)
  next
    case False
    then have fut: "now < run_dt" by simp
    show ?thesis
    proof (cases "map_of (app_lists st) title")
      case None
      then show ?thesis
        using g nf Some False
        by (simp add: schedule_reminder_for_current_list_def set_reminder_def)
    next
      case (Some d)
      have "agreement fromisoformat ((map_of (app_lists st))(title \<mapsto> d\<lparr>reminder := isoformat run_dt\<rparr>))
           (filter (\<lambda>j. job_id j \<noteq> job_id_for title) (scheduler st)
              @ [\<lparr>job_id = job_id_for title, run_date = Naive run_dt, bound_title = title\<rparr>])"
        using codec [of run_dt]
        by (intro agreement_replace [OF g collision_free_rule [OF cf] Some]) simp_all
      then show ?thesis
        using \<open>item = Some title\<close> nf
        by (simp add: schedule_plain [OF Some agreement_distinct [OF g] nf fut]
            show_dialog_frame update_conv')
    qed
  qed
qed

lemma cancel_keeps_agreement:
  assumes g: "agreement fromisoformat (map_of (app_lists st)) (scheduler st)"
    and cf: "collision_free (app_lists st)"
    and nf: "add_job_faults st = []"
  shows "agreement fromisoformat
           (map_of (app_lists (snd (clear_reminder_for_current_list item st))))
           (scheduler (snd (clear_reminder_for_current_list item st))) \<and>
         add_job_faults (snd (clear_reminder_for_current_list item st)) = []"
proof (cases item)
  case None
  then show ?thesis using g nf by (simp add: clear_reminder_for_current_list_def)
next
  case (Some title)
  show ?thesis
  proof (cases "map_of (app_lists st) title")
    case None
    then show ?thesis
      using g nf \<open>item = Some title\<close> by (simp add: clear_reminder_for_current_list_def)
  next
    case present: (Some d)
    show ?thesis
    proof (cases "reminder d = []")
      case True
      then show ?thesis
        using g nf \<open>item = Some title\<close> present
        by (simp add: clear_reminder_for_current_list_def show_dialog_frame)
    next
      case False
      let ?st1 = "st\<lparr>scheduler := filter (\<lambda>j. job_id j \<noteq> job_id_for title) (scheduler st)\<rparr>"
      have r: "snd (remove_job (job_id_for title) st) = ?st1"
        using agreement_distinct [OF g] by (rule snd_remove_job)
      have m1: "map_of (app_lists ?st1) title = Some d"
        using present by simp
      have res: "clear_reminder_for_current_list item st =
          (None, show_dialog (Information ''Cleared'')
             (?st1\<lparr>app_lists := AList.update title (d\<lparr>reminder := []\<rparr>) (app_lists ?st1)\<rparr>))"
        using \<open>item = Some title\<close> present False
        by (simp add: clear_reminder_for_current_list_def r set_reminder_present [OF m1])
      have "agreement fromisoformat ((map_of (app_lists st))(title \<mapsto> d\<lparr>reminder := []\<rparr>))
           (filter (\<lambda>j. job_id j \<noteq> job_id_for title) (scheduler st))"
        by (intro agreement_clear [OF g collision_free_rule [OF cf] present]) simp_all
      then show ?thesis
        using nf by (simp add: res show_dialog_frame update_conv')
    qed
  qed
qed

lemma mark_done_keeps_agreement:
  assumes g: "agreement fromisoformat (map_of (app_lists st)) (scheduler st)"
    and cf: "collision_free (app_lists st)"
    and nf: "add_job_faults st = []"
  shows "agreement fromisoformat
           (map_of (app_lists (snd (mark_list_done item st))))
           (scheduler (snd (mark_list_done item st))) \<and>
         add_job_faults (snd (mark_list_done item st)) = []"
proof (cases item)
  case None
  then show ?thesis using g nf by (simp add: mark_list_done_def)
next
  case (Some title)
  show ?thesis
  proof (cases "map_of (app_lists st) title")
    case None
    then show ?thesis
      using g nf \<open>item = Some title\<close> by (simp add: mark_list_done_def)
  next
    case present: (Some d)
    let ?d' = "d\<lparr>tasks := map (\<lambda>t. check_mark @ '' '' @ t) (tasks d), reminder := []\<rparr>"
    let ?st1 = "st\<lparr>app_lists := AList.update title ?d' (app_lists st)\<rparr>"
    have d1: "distinct (map job_id (scheduler ?st1))"
      using agreement_distinct [OF g] by simp
    have r: "snd (remove_job (job_id_for title) ?st1) =
        ?st1\<lparr>scheduler := filter (\<lambda>j. job_id j \<noteq> job_id_for title) (scheduler ?st1)\<rparr>"
      using d1 by (rule snd_remove_job)
    have res: "mark_list_done item st =
        (None, show_dialog (Information ''Done'')
           (?st1\<lparr>scheduler := filter (\<lambda>j. job_id j \<noteq> job_id_for title) (scheduler ?st1)\<rparr>))"
      using \<open>item = Some title\<close> present r
      by (simp add: mark_list_done_def Let_def)
    have "agreement fromisoformat ((map_of (app_lists st))(title \<mapsto> ?d'))
           (filter (\<lambda>j. job_id j \<noteq> job_id_for title) (scheduler st))"
      by (intro agreement_clear [OF g collision_free_rule [OF cf] present]) simp_all
    then show ?thesis
      using nf by (simp add: res show_dialog_frame update_conv')
  qed
qed

lemma delete_keeps_agreement:
  assumes g: "agreement fromisoformat (map_of (app_lists st)) (scheduler st)"
    and cf: "collision_free (app_lists st)"
    and nf: "add_job_faults st = []"
  shows "agreement fromisoformat
           (map_of (app_lists (delete_selected_list item confirm st)))
           (scheduler (delete_selected_list item confirm st)) \<and>
         add_job_faults (delete_selected_list item confirm st) = []"
proof (cases "item = None \<or> \<not> confirm")
  case True
  then show ?thesis using g nf by (auto simp: delete_selected_list_def split: option.splits)
next
  case False
  then obtain title where item: "item = Some title" and confirm by auto
  show ?thesis
  proof (cases "map_of (app_lists st) title")
    case None
    then have "(map_of (app_lists st))(title := None) = map_of (app_lists st)"
      by auto
    then show ?thesis
      using g nf item \<open>confirm\<close> None by (simp add: delete_selected_list_def delete_conv')
  next
    case present: (Some d)
    show ?thesis
    proof (cases "reminder d = []")
      case True
      have "agreement fromisoformat ((map_of (app_lists st))(title := None)) (scheduler st)"
        using g present True by (rule agreement_delete_idle)
      then show ?thesis
        using nf item \<open>confirm\<close> present True by (simp add: delete_selected_list_def delete_conv')
    next
      case False
      have r: "snd (remove_job (job_id_for title) st) =
          st\<lparr>scheduler := filter (\<lambda>j. job_id j \<noteq> job_id_for title) (scheduler st)\<rparr>"
        using agreement_distinct [OF g] by (rule snd_remove_job)
      have "agreement fromisoformat ((map_of (app_lists st))(title := None))
              (filter (\<lambda>j. job_id j \<noteq> job_id_for title) (scheduler st))"
        using g collision_free_rule [OF cf] present by (rule agreement_delete)
      then show ?thesis
        using nf item \<open>confirm\<close> present False
        by (simp add: delete_selected_list_def delete_conv' r)
    qed
  qed
qed

lemma fire_present:
  assumes "get_job jid st = Some j"
    and "map_of (app_lists st) (bound_title j) = Some d"
  shows "app_lists (fire jid send_ok write_ok st) =
           AList.update (bound_title j) (d\<lparr>reminder := []\<rparr>) (app_lists st)"
    and "scheduler (fire jid send_ok write_ok st) = remove_first jid (scheduler st)"
    and "add_job_faults (fire jid send_ok write_ok st) = add_job_faults st"
  using assms
  by (simp_all add: fire_def notify_def save_data_def show_dialog_def Let_def
      set_reminder_present)

lemma fire_keeps_agreement:
  assumes g: "agreement fromisoformat (map_of (app_lists st)) (scheduler st)"
    and cf: "collision_free (app_lists st)"
    and nf: "add_job_faults st = []"
  shows "agreement fromisoformat
           (map_of (app_lists (fire jid send_ok write_ok st)))
           (scheduler (fire jid send_ok write_ok st)) \<and>
         add_job_faults (fire jid send_ok write_ok st) = []"
proof (cases "get_job jid st")
  case None
  then show ?thesis using g nf by (simp add: fire_def)
next
  case (Some j)
  then have j: "j \<in> set (scheduler st)" "job_id j = jid"
    using get_job_SomeD by blast+
  from agreement_job [OF g j(1)] obtain d where d: "job_id j = job_id_for (bound_title j)"
      "map_of (app_lists st) (bound_title j) = Some d"
    by blast
  have jid: "jid = job_id_for (bound_title j)"
    using j(2) d(1) by simp
  have "agreement fromisoformat ((map_of (app_lists st))(bound_title j \<mapsto> d\<lparr>reminder := []\<rparr>))
           (filter (\<lambda>k. job_id k \<noteq> job_id_for (bound_title j)) (scheduler st))"
    by (intro agreement_clear [OF g collision_free_rule [OF cf] d(2)]) simp_all
  then show ?thesis
    using nf
    by (simp add: fire_present [OF Some d(2)] update_conv'
        remove_first_filter [OF agreement_distinct [OF g]] jid [symmetric])
qed

lemma rename_keeps_agreement:
  assumes g: "agreement fromisoformat (map_of (app_lists st)) (scheduler st)"
    and cf: "collision_free (app_lists st)"
    and nf: "add_job_faults st = []"
    and cf': "collision_free (app_lists (snd (rename_current_list fromisoformat item new_title st)))"
  shows "agreement fromisoformat
           (map_of (app_lists (snd (rename_current_list fromisoformat item new_title st))))
           (scheduler (snd (rename_current_list fromisoformat item new_title st))) \<and>
         add_job_faults (snd (rename_current_list fromisoformat item new_title st)) = []"
proof (cases "\<exists>old_title d. item = Some old_title \<and> new_title \<noteq> [] \<and> new_title \<noteq> old_title \<and>
    map_of (app_lists st) new_title = None \<and> map_of (app_lists st) old_title = Some d")
  case False
  then show ?thesis
    using g nf
    by (cases item; cases "map_of (app_lists st) (the item)")
       (auto simp: rename_current_list_def show_dialog_frame)
next
  case True
  then obtain old_title d where item: "item = Some old_title"
    and p: "new_title \<noteq> []" "new_title \<noteq> old_title" "map_of (app_lists st) new_title = None"
      "map_of (app_lists st) old_title = Some d"
    by blast
  let ?m' = "(map_of (app_lists st))(old_title := None, new_title \<mapsto> d)"
  have m': "map_of (AList.update new_title d (AList.delete old_title (app_lists st))) = ?m'"
    by (simp add: update_conv' delete_conv')
  show ?thesis
  proof (cases "reminder d = []")
    case True
    have "agreement fromisoformat ?m' (scheduler st)"
      using g p(4) True p(3) by (rule agreement_rename_idle)
    then show ?thesis
      using nf item
      by (simp add: rename_no_job [OF p disjI1 [OF True]] m')
  next
    case False
    from agreement_armed [OF g p(4) False] obtain j where j: "j \<in> set (scheduler st)"
        "bound_title j = old_title"
      by blast
    from agreement_job [OF g j(1)] j(2) p(4)
    have jj: "job_id j = job_id_for old_title" "fromisoformat (reminder d) = Some (run_date j)"
      by auto
    have gj: "get_job (job_id_for old_title) st = Some j"
      using j(1) jj(1) by (simp add: get_job_Some_iff [OF agreement_distinct [OF g]])
    note res = rename_with_job [where fromisoformat = fromisoformat,
        OF p False gj jj(2) agreement_distinct [OF g] nf]
    have post: "collision_free (AList.update new_title d (AList.delete old_title (app_lists st)))"
      using cf' item by (simp add: res)
    have sep: "job_id_for t \<noteq> job_id_for new_title"
      if "t \<noteq> old_title" "t \<noteq> new_title" "map_of (app_lists st) t = Some d'" for t d'
    proof
      assume e: "job_id_for t = job_id_for new_title"
      have "map_of (AList.update new_title d (AList.delete old_title (app_lists st))) t = Some d'"
        "map_of (AList.update new_title d (AList.delete old_title (app_lists st))) new_title = Some d"
        using that by (simp_all add: m')
      from collision_free_map [OF post this e] that(2) show False by simp
    qed
    have "agreement fromisoformat ?m'
           (filter (\<lambda>j. job_id j \<noteq> job_id_for new_title)
              (filter (\<lambda>j. job_id j \<noteq> job_id_for old_title) (scheduler st))
            @ [\<lparr>job_id = job_id_for new_title, run_date = run_date j, bound_title = new_title\<rparr>])"
      using g collision_free_rule [OF cf] sep p(4,3) False jj(2) by (rule agreement_rename)
    then show ?thesis
      using nf item by (simp add: res m')
  qed
qed

lemma rearm_item_keeps_agreement:
  assumes g: "agreement fromisoformat (map_of (app_lists st)) (scheduler st)"
    and cf: "collision_free (app_lists st)"
    and nf: "add_job_faults st = []"
    and due: "\<forall>j \<in> set (scheduler st). later_than (run_date j) now = Inr True"
    and live: "map_of (app_lists st) title = Some d"
  shows "\<exists>st'. rearm_item fromisoformat now title d st = (None, st') \<and>
      app_lists st' = app_lists st \<and>
      agreement fromisoformat (map_of (app_lists st')) (scheduler st') \<and>
      add_job_faults st' = [] \<and> (\<forall>j \<in> set (scheduler st'). later_than (run_date j) now = Inr True)"
proof (cases "reminder d = []")
  case True
  then show ?thesis using g nf due by (simp add: rearm_item_empty)
next
  case False
  from agreement_armed [OF g live False] obtain j where j: "j \<in> set (scheduler st)"
      "bound_title j = title"
    by blast
  from agreement_job [OF g j(1)] j(2) live
  have p: "fromisoformat (reminder d) = Some (run_date j)" by auto
  have fut: "later_than (run_date j) now = Inr True" using due j(1) by simp
  note res = rearm_item_future [where fromisoformat = fromisoformat and title = title,
      OF False p fut agreement_distinct [OF g] nf]
  have same: "(map_of (app_lists st))(title \<mapsto> d) = map_of (app_lists st)"
    using live by (rule map_upd_triv)
  have "agreement fromisoformat ((map_of (app_lists st))(title \<mapsto> d))
           (filter (\<lambda>j. job_id j \<noteq> job_id_for title) (scheduler st)
              @ [\<lparr>job_id = job_id_for title, run_date = run_date j, bound_title = title\<rparr>])"
    using g collision_free_rule [OF cf] live False p by (rule agreement_replace)
  then show ?thesis
    using nf due fut by (simp add: res same)
qed

lemma rearm_loop_keeps_agreement:
  assumes "agreement fromisoformat (map_of (app_lists st)) (scheduler st)"
    and "collision_free (app_lists st)"
    and "add_job_faults st = []"
    and "\<forall>j \<in> set (scheduler st). later_than (run_date j) now = Inr True"
    and "\<forall>(t, d) \<in> set items. map_of (app_lists st) t = Some d"
  shows "\<exists>st'. rearm_loop fromisoformat now items st = (None, st') \<and>
      app_lists st' = app_lists st \<and>
      agreement fromisoformat (map_of (app_lists st')) (scheduler st') \<and>
      add_job_faults st' = []"
  using assms
proof (induction items arbitrary: st)
  case Nil
  then show ?case by simp
next
  case (Cons item items)
  obtain t d where item: "item = (t, d)" by (cases item)
  have live: "map_of (app_lists st) t = Some d"
    using Cons.prems(5) item by simp
  from rearm_item_keeps_agreement [OF Cons.prems(1-4) live]
  obtain st1 where st1: "rearm_item fromisoformat now t d st = (None, st1)"
      "app_lists st1 = app_lists st"
      "agreement fromisoformat (map_of (app_lists st1)) (scheduler st1)"
      "add_job_faults st1 = []" "\<forall>j \<in> set (scheduler st1). later_than (run_date j) now = Inr True"
    by blast
  have cf1: "collision_free (app_lists st1)"
    using Cons.prems(2) st1(2) by simp
  have rest: "\<forall>(t, d) \<in> set items. map_of (app_lists st1) t = Some d"
    using Cons.prems(5) st1(2) by simp
  from Cons.IH [OF st1(3) cf1 st1(4,5) rest]
  obtain st' where "rearm_loop fromisoformat now items st1 = (None, st')"
      "app_lists st' = app_lists st1"
      "agreement fromisoformat (map_of (app_lists st')) (scheduler st')"
      "add_job_faults st' = []"
    by blast
  then show ?case
    using item st1(1,2) by simp
qed

lemma rearm_keeps_agreement:
  assumes g: "agreement fromisoformat (map_of (app_lists st)) (scheduler st)"
    and cf: "collision_free (app_lists st)"
    and nf: "add_job_faults st = []"
    and due: "\<forall>j \<in> set (scheduler st). later_than (run_date j) now = Inr True"
  shows "agreement fromisoformat
           (map_of (app_lists (snd (schedule_existing_reminders fromisoformat now st))))
           (scheduler (snd (schedule_existing_reminders fromisoformat now st))) \<and>
         add_job_faults (snd (schedule_existing_reminders fromisoformat now st)) = [] \<and>
         app_lists (snd (schedule_existing_reminders fromisoformat now st)) = app_lists st"
proof -
  have "\<forall>(t, d) \<in> set (app_lists st). map_of (app_lists st) t = Some d"
    using collision_free_keys [OF cf] by auto
  from rearm_loop_keeps_agreement [OF g cf nf due this]
  show ?thesis
    unfolding schedule_existing_reminders_def by auto
qed

lemma step_keeps_agreement:
  assumes g: "agreement fromisoformat (map_of (app_lists st)) (scheduler st)"
    and cf: "collision_free (app_lists st)"
    and nf: "add_job_faults st = []"
    and ok: "op_ok x st"
    and cf': "collision_free (app_lists (snd (step isoformat fromisoformat x st)))"
    and codec: "\<And>dt. isoformat dt \<noteq> [] \<and> fromisoformat (isoformat dt) = Some (Naive dt)"
  shows "agreement fromisoformat
           (map_of (app_lists (snd (step isoformat fromisoformat x st))))
           (scheduler (snd (step isoformat fromisoformat x st))) \<and>
         add_job_faults (snd (step isoformat fromisoformat x st)) = []"
proof (cases x)
  case (Schedule item run_dt now)
  then show ?thesis
    using schedule_keeps_agreement [OF g cf nf codec] by simp
next
  case (Cancel item)
  then show ?thesis using cancel_keeps_agreement [OF g cf nf] by simp
next
  case (Rename item new_title)
  then show ?thesis using rename_keeps_agreement [OF g cf nf] cf' by simp
next
  case (Delete item confirm)
  then show ?thesis using delete_keeps_agreement [OF g cf nf] by simp
next
  case (MarkDone item)
  then show ?thesis using mark_done_keeps_agreement [OF g cf nf] by simp
next
  case (Rearm now)
  then have "\<forall>j \<in> set (scheduler st). later_than (run_date j) now = Inr True" using ok by simp
  from rearm_keeps_agreement [OF g cf nf this]
  have "agreement fromisoformat
           (map_of (app_lists (snd (schedule_existing_reminders fromisoformat now st))))
           (scheduler (snd (schedule_existing_reminders fromisoformat now st))) \<and>
         add_job_faults (snd (schedule_existing_reminders fromisoformat now st)) = []"
    by blast
  with Rearm show ?thesis by simp
next
  case (Fire jid send_ok write_ok)
  then show ?thesis using fire_keeps_agreement [OF g cf nf] by simp
next
  case (Take jid)
  then show ?thesis using ok by simp
next
  case (CallbackSend list_title send_ok)
  then show ?thesis using ok by simp
next
  case (CallbackClear list_title write_ok)
  then show ?thesis using ok by simp
qed

lemma guarded_here:
  "guarded isoformat fromisoformat ops st \<Longrightarrow>
   collision_free (app_lists st) \<and> add_job_faults st = []"
  by (cases ops) simp_all

lemma guarded_take:
  "guarded isoformat fromisoformat ops st \<Longrightarrow> guarded isoformat fromisoformat (take n ops) st"
proof (induction ops arbitrary: n st)
  case Nil
  then show ?case by simp
next
  case (Cons x xs)
  show ?case
  proof (cases n)
    case 0
    then show ?thesis using guarded_here [OF Cons.prems] by simp
  next
    case (Suc k)
    obtain e st1 where s: "step isoformat fromisoformat x st = (e, st1)"
      by (cases "step isoformat fromisoformat x st")
    show ?thesis
      using Cons.prems Cons.IH [of st1 k] s Suc by (cases e) simp_all
  qed
qed

lemma run_keeps_agreement:
  assumes "agreement fromisoformat (map_of (app_lists st)) (scheduler st)"
    and "guarded isoformat fromisoformat ops st"
    and codec: "\<And>dt. isoformat dt \<noteq> [] \<and> fromisoformat (isoformat dt) = Some (Naive dt)"
  shows "agreement fromisoformat
           (map_of (app_lists (snd (run isoformat fromisoformat ops st))))
           (scheduler (snd (run isoformat fromisoformat ops st))) \<and>
         collision_free (app_lists (snd (run isoformat fromisoformat ops st)))"
  using assms(1,2)
proof (induction ops arbitrary: st)
  case Nil
  then show ?case by simp
next
  case (Cons x xs)
  obtain e st1 where s: "step isoformat fromisoformat x st = (e, st1)"
    by (cases "step isoformat fromisoformat x st")
  have here: "collision_free (app_lists st)" "add_job_faults st = []" "op_ok x st"
    using Cons.prems(2) by simp_all
  have cf1: "collision_free (app_lists st1)"
    using Cons.prems(2) s guarded_here [of isoformat fromisoformat xs st1] by (cases e) simp_all
  have g1: "agreement fromisoformat (map_of (app_lists st1)) (scheduler st1)"
    using step_keeps_agreement [where isoformat = isoformat, OF Cons.prems(1) here] cf1 codec s
    by simp
  show ?case
  proof (cases e)
    case None
    then have "guarded isoformat fromisoformat xs st1"
      using Cons.prems(2) s by simp
    from Cons.IH [OF g1 this] show ?thesis using s None by simp
  next
    case (Some err)
    then show ?thesis using g1 cf1 s by simp
  qed
qed

lemma sample_codec:
  "sample_isoformat dt \<noteq> [] \<and> sample_fromisoformat (sample_isoformat dt) = Some (Naive dt)"
  by (simp add: sample_isoformat_def sample_fromisoformat_def list_all_iff)

subsection \<open>One job per job id\<close>

lemma remove_job_unique:
  "job_ids_unique st \<Longrightarrow> job_ids_unique (snd (remove_job jid st))"
  by (simp add: job_ids_unique_def snd_remove_job distinct_map_filter)

lemma add_job_unique:
  assumes "job_ids_unique st"
  shows "job_ids_unique (snd (add_job j st))"
proof (cases "get_job (job_id j) st")
  case None
  then have "job_id j \<notin> job_id ` set (scheduler st)"
    by (simp add: get_job_None_iff)
  then show ?thesis
    using assms None
    by (cases "add_job_faults st"; cases "hd (add_job_faults st)")
       (auto simp: add_job_def job_ids_unique_def get_job_def)
next
  case (Some k)
  then show ?thesis
    using assms
    by (cases "add_job_faults st"; cases "hd (add_job_faults st)")
       (auto simp: add_job_def job_ids_unique_def get_job_def)
qed

lemma add_notification_job_unique:
  assumes "job_ids_unique st"
  shows "job_ids_unique (snd (add_notification_job list_title run_dt st))"
proof -
  let ?jid = "job_id_for list_title"
  let ?j = "\<lparr>job_id = ?jid, run_date = run_dt, bound_title = list_title\<rparr>"
  define st1 where "st1 = (case get_job ?jid st of None \<Rightarrow> st | Some _ \<Rightarrow> snd (remove_job ?jid st))"
  have u1: "job_ids_unique st1"
    unfolding st1_def using assms remove_job_unique [of st ?jid]
    by (cases "get_job ?jid st") simp_all
  obtain e st2 where a: "add_job ?j st1 = (e, st2)"
    by (cases "add_job ?j st1")
  have u2: "job_ids_unique st2"
    using add_job_unique [OF u1, of ?j] a by simp
  obtain e3 st3 where r: "remove_job ?jid st2 = (e3, st3)"
    by (cases "remove_job ?jid st2")
  have u3: "job_ids_unique st3"
    using remove_job_unique [OF u2, of ?jid] r by simp
  have u4: "job_ids_unique (snd (add_job ?j st3))"
    using u3 by (rule add_job_unique)
  have res: "add_notification_job list_title run_dt st =
      (case e of None \<Rightarrow> (None, st2)
       | Some ConflictingIdError \<Rightarrow>
           (case e3 of Some _ \<Rightarrow> (None, st3) | None \<Rightarrow> (None, snd (add_job ?j st3)))
       | Some x \<Rightarrow> (Some x, st2))"
    unfolding add_notification_job_def Let_def st1_def [symmetric] a
    by (simp add: r split: option.splits exn.splits)
  show ?thesis
    unfolding res using u2 u3 u4
    by (cases e; cases e3) (simp_all split: exn.splits)
qed

lemma job_ids_unique_frame:
  "scheduler st' = scheduler st \<Longrightarrow> job_ids_unique st' = job_ids_unique st"
  by (simp add: job_ids_unique_def)

lemma set_reminder_scheduler:
  "scheduler (snd (set_reminder title r st)) = scheduler st"
  by (cases "map_of (app_lists st) title") (simp_all add: set_reminder_def)

lemma notify_scheduler:
  "scheduler (notify send_ok write_ok list_title st) = scheduler st"
  by (cases "map_of (app_lists st) list_title")
     (simp_all add: notify_def Let_def save_data_def show_dialog_def set_reminder_def)

lemma notify_halves:
  "notify send_ok write_ok list_title st =
     notify_clear write_ok list_title (notify_send send_ok list_title st)"
  by (simp add: notify_def notify_send_def notify_clear_def Let_def)

lemma notify_send_scheduler:
  "scheduler (notify_send send_ok list_title st) = scheduler st"
  by (simp add: notify_send_def)

lemma notify_clear_scheduler:
  "scheduler (notify_clear write_ok list_title st) = scheduler st"
  by (cases "map_of (app_lists st) list_title")
     (simp_all add: notify_clear_def save_data_def show_dialog_def set_reminder_def)

lemma take_due_unique:
  "job_ids_unique st \<Longrightarrow> job_ids_unique (take_due jid st)"
  by (cases "get_job jid st")
     (simp_all add: take_due_def job_ids_unique_def remove_first_filter distinct_map_filter)

lemma fire_take_notify:
  "fire jid send_ok write_ok st =
     (case get_job jid st of
        None \<Rightarrow> st
      | Some j \<Rightarrow> notify send_ok write_ok (bound_title j) (take_due jid st))"
  by (cases "get_job jid st") (simp_all add: fire_def take_due_def)

lemma fire_as_run:
  "get_job jid st = Some j \<Longrightarrow>
   run isoformat fromisoformat
     [Take jid, CallbackSend (bound_title j) send_ok, CallbackClear (bound_title j) write_ok] st =
   run isoformat fromisoformat [Fire jid send_ok write_ok] st"
  by (simp add: fire_take_notify notify_halves)

lemma fire_unique:
  assumes "job_ids_unique st"
  shows "job_ids_unique (fire jid send_ok write_ok st)"
proof (cases "get_job jid st")
  case None
  then show ?thesis using assms by (simp add: fire_def)
next
  case (Some j)
  then show ?thesis
    using take_due_unique [OF assms, of jid]
    by (simp add: fire_take_notify job_ids_unique_def notify_scheduler)
qed

lemma schedule_unique:
  assumes "job_ids_unique st"
  shows "job_ids_unique (snd (schedule_reminder_for_current_list isoformat item run_dt now st))"
proof (cases "\<exists>title d. item = Some title \<and> now < run_dt \<and> map_of (app_lists st) title = Some d")
  case False
  then show ?thesis
    using assms
    by (cases item; cases "map_of (app_lists st) (the item)")
       (auto simp: schedule_reminder_for_current_list_def job_ids_unique_def show_dialog_def
          set_reminder_def)
next
  case True
  then obtain title d where p: "item = Some title" "now < run_dt"
      "map_of (app_lists st) title = Some d"
    by blast
  let ?st1 = "st\<lparr>app_lists := AList.update title (d\<lparr>reminder := isoformat run_dt\<rparr>) (app_lists st)\<rparr>"
  have "job_ids_unique ?st1"
    using assms by (simp add: job_ids_unique_def)
  from add_notification_job_unique [OF this, of title "Naive run_dt"]
  show ?thesis
    unfolding p(1) schedule_unfold [OF p(3,2)]
    by (cases "add_notification_job title (Naive run_dt) ?st1"; cases "fst (add_notification_job title (Naive run_dt) ?st1)")
       (simp_all add: job_ids_unique_def show_dialog_def)
qed

lemma cancel_unique:
  assumes "job_ids_unique st"
  shows "job_ids_unique (snd (clear_reminder_for_current_list item st))"
proof (cases "\<exists>title d. item = Some title \<and> map_of (app_lists st) title = Some d \<and> reminder d \<noteq> []")
  case False
  then show ?thesis
    using assms
    by (cases item; cases "map_of (app_lists st) (the item)")
       (auto simp: clear_reminder_for_current_list_def job_ids_unique_def show_dialog_def)
next
  case True
  then obtain title d where p: "item = Some title" "map_of (app_lists st) title = Some d"
      "reminder d \<noteq> []"
    by blast
  let ?st1 = "snd (remove_job (job_id_for title) st)"
  have u: "job_ids_unique ?st1" using assms by (rule remove_job_unique)
  have "scheduler (snd (set_reminder title [] ?st1)) = scheduler ?st1"
    by (rule set_reminder_scheduler)
  then show ?thesis
    using u p
    by (cases "set_reminder title [] ?st1"; cases "fst (set_reminder title [] ?st1)")
       (simp_all add: clear_reminder_for_current_list_def job_ids_unique_def show_dialog_def)
qed

lemma mark_done_unique:
  assumes "job_ids_unique st"
  shows "job_ids_unique (snd (mark_list_done item st))"
proof (cases "\<exists>title d. item = Some title \<and> map_of (app_lists st) title = Some d")
  case False
  then show ?thesis
    using assms
    by (cases item; cases "map_of (app_lists st) (the item)")
       (auto simp: mark_list_done_def)
next
  case True
  then obtain title d where p: "item = Some title" "map_of (app_lists st) title = Some d"
    by blast
  let ?st1 = "st\<lparr>app_lists :=
                 AList.update title
                   (d\<lparr>tasks := map (\<lambda>t. check_mark @ '' '' @ t) (tasks d), reminder := []\<rparr>)
                   (app_lists st)\<rparr>"
  have "job_ids_unique ?st1" using assms by (simp add: job_ids_unique_def)
  from remove_job_unique [OF this, of "job_id_for title"]
  show ?thesis
    using p by (simp add: mark_list_done_def Let_def job_ids_unique_def show_dialog_def)
qed

lemma delete_unique:
  assumes "job_ids_unique st"
  shows "job_ids_unique (delete_selected_list item confirm st)"
proof (cases "item = None \<or> \<not> confirm")
  case True
  then show ?thesis using assms by (auto simp: delete_selected_list_def split: option.splits)
next
  case False
  then obtain title where p: "item = Some title" "confirm" by auto
  show ?thesis
    using assms remove_job_unique [OF assms, of "job_id_for title"] p
    by (simp add: delete_selected_list_def Let_def job_ids_unique_def)
qed

lemma rename_unique:
  assumes "job_ids_unique st"
  shows "job_ids_unique (snd (rename_current_list fromisoformat item new_title st))"
proof (cases "\<exists>old_title d. item = Some old_title \<and> new_title \<noteq> [] \<and> new_title \<noteq> old_title \<and>
    map_of (app_lists st) new_title = None \<and> map_of (app_lists st) old_title = Some d")
  case False
  then show ?thesis
    using assms
    by (cases item; cases "map_of (app_lists st) (the item)")
       (auto simp: rename_current_list_def job_ids_unique_def show_dialog_def)
next
  case True
  then obtain old_title d where item: "item = Some old_title"
    and p: "new_title \<noteq> []" "new_title \<noteq> old_title" "map_of (app_lists st) new_title = None"
      "map_of (app_lists st) old_title = Some d"
    by blast
  let ?st1 = "st\<lparr>app_lists := AList.update new_title d (AList.delete old_title (app_lists st))\<rparr>"
  have u1: "job_ids_unique ?st1" using assms by (simp add: job_ids_unique_def)
  show ?thesis
  proof (cases "reminder d = [] \<or> get_job (job_id_for old_title) st = None")
    case True
    then show ?thesis
      using u1 item by (simp add: rename_no_job [OF p True])
  next
    case False
    then obtain j where j: "reminder d \<noteq> []" "get_job (job_id_for old_title) st = Some j"
      by auto
    have d: "distinct (map job_id (scheduler st))"
      using assms by (simp add: job_ids_unique_def)
    let ?st2 = "?st1\<lparr>scheduler := filter (\<lambda>j. job_id j \<noteq> job_id_for old_title) (scheduler st)\<rparr>"
    have u2: "job_ids_unique ?st2"
      using d by (simp add: job_ids_unique_def distinct_map_filter)
    have g: "get_job (job_id_for old_title) ?st1 = Some j"
      using j(2) by (simp add: get_job_lists_update)
    have r: "remove_job (job_id_for old_title) ?st1 = (None, ?st2)"
      using g d by (simp add: remove_job_def remove_first_filter)
    show ?thesis
    proof (cases "fromisoformat (reminder d)")
      case None
      have "rename_current_list fromisoformat item new_title st = (None, ?st2)"
        using item p j(1) None g r by (simp add: rename_current_list_def Let_def)
      then show ?thesis using u2 by simp
    next
      case (Some run_dt)
      have "rename_current_list fromisoformat item new_title st =
          (None, snd (add_notification_job new_title run_dt ?st2))"
        using item p j(1) Some g r by (simp add: rename_current_list_def Let_def)
      then show ?thesis
        using add_notification_job_unique [OF u2, of new_title run_dt] by simp
    qed
  qed
qed

lemma rearm_item_unique:
  assumes "job_ids_unique st"
  shows "job_ids_unique (snd (rearm_item fromisoformat now title d st))"
proof -
  have t: "job_ids_unique (snd (rearm_try fromisoformat now title (reminder d) st))"
  proof (cases "fromisoformat (reminder d)")
    case None
    then show ?thesis using assms by (simp add: rearm_try_def)
  next
    case (Some run_dt)
    show ?thesis
    proof (cases "later_than run_dt now")
      case (Inl e)
      then show ?thesis using assms Some by (simp add: rearm_try_def)
    next
      case (Inr b)
      then show ?thesis
        using assms Some add_notification_job_unique [OF assms, of title run_dt]
          set_reminder_scheduler [of title "[]" st]
        by (cases b) (simp_all add: rearm_try_def job_ids_unique_def)
    qed
  qed
  obtain e st1 where r: "rearm_try fromisoformat now title (reminder d) st = (e, st1)"
    by (cases "rearm_try fromisoformat now title (reminder d) st")
  have "job_ids_unique st1" using t r by simp
  moreover have "scheduler (snd (set_reminder title [] st1)) = scheduler st1"
    by (rule set_reminder_scheduler)
  ultimately show ?thesis
    using assms r by (cases e) (simp_all add: rearm_item_def Let_def job_ids_unique_def)
qed

lemma rearm_loop_unique:
  "job_ids_unique st \<Longrightarrow> job_ids_unique (snd (rearm_loop fromisoformat now items st))"
proof (induction items arbitrary: st)
  case Nil
  then show ?case by simp
next
  case (Cons item items)
  obtain t d where item: "item = (t, d)" by (cases item)
  obtain e st1 where r: "rearm_item fromisoformat now t d st = (e, st1)"
    by (cases "rearm_item fromisoformat now t d st")
  have u1: "job_ids_unique st1"
    using rearm_item_unique [OF Cons.prems, of fromisoformat now t d] r by simp
  show ?case
    using item r u1 Cons.IH [OF u1] by (cases e) simp_all
qed

lemma step_unique:
  assumes "job_ids_unique st"
  shows "job_ids_unique (snd (step isoformat fromisoformat x st))"
proof (cases x)
  case (Schedule item run_dt now)
  then show ?thesis using schedule_unique [OF assms] by simp
next
  case (Cancel item)
  then show ?thesis using cancel_unique [OF assms] by simp
next
  case (Rename item new_title)
  then show ?thesis using rename_unique [OF assms] by simp
next
  case (Delete item confirm)
  then show ?thesis using delete_unique [OF assms] by simp
next
  case (MarkDone item)
  then show ?thesis using mark_done_unique [OF assms] by simp
next
  case (Rearm now)
  then show ?thesis
    using rearm_loop_unique [OF assms] by (simp add: schedule_existing_reminders_def)
next
  case (Fire jid send_ok write_ok)
  then show ?thesis using fire_unique [OF assms] by simp
next
  case (Take jid)
  then show ?thesis using take_due_unique [OF assms] by simp
next
  case (CallbackSend list_title send_ok)
  then show ?thesis using assms by (simp add: job_ids_unique_def notify_send_scheduler)
next
  case (CallbackClear list_title write_ok)
  then show ?thesis using assms by (simp add: job_ids_unique_def notify_clear_scheduler)
qed

lemma run_unique:
  "job_ids_unique st \<Longrightarrow> job_ids_unique (snd (run isoformat fromisoformat ops st))"
proof (induction ops arbitrary: st)
  case Nil
  then show ?case by simp
next
  case (Cons x xs)
  obtain e st1 where s: "step isoformat fromisoformat x st = (e, st1)"
    by (cases "step isoformat fromisoformat x st")
  have u1: "job_ids_unique st1"
    using step_unique [OF Cons.prems, of isoformat fromisoformat x] s by simp
  show ?case
    using s u1 Cons.IH [OF u1] by (cases e) simp_all
qed

subsection \<open>The invariant of the runs\<close>

text \<open>C1, as the code has it. In every run of the operations, whatever comes between and
  whatever the scheduler library raises, at most one job is pending per job id after
  every operation, if so at the start. The agreement of store and scheduler is kept
  under conditions: take a run of schedule, cancel, rename, delete, mark-done, rearm and
  fire operations in which, in every state passed, no two titles of the store have the
  same job id and the scheduler library raises nothing of its own, in which a rearm pass
  starts only when every pending job lies strictly after \<open>now\<close>, and in which every due job
  fires with nothing in between (no job is dropped as missed, and no operation comes
  between the removal of a job and the end of its callable); the two library functions
  are such that a written time reads back as itself and is not the empty string. If
  store and scheduler agree at the start of such a run, they agree after every prefix
  of it: every job is bound to a list of the store, and a list's reminder is non-empty
  exactly when a job is pending under its job id, which then fires at the time the
  reminder denotes.\<close>

theorem agreement_kept_along_runs:
  assumes "job_ids_unique st"
  shows "job_ids_unique (snd (run isoformat fromisoformat (take n ops) st)) \<and>
     (consistent fromisoformat st \<and> guarded isoformat fromisoformat ops st \<and>
      (\<forall>dt. isoformat dt \<noteq> [] \<and> fromisoformat (isoformat dt) = Some (Naive dt)) \<longrightarrow>
        consistent fromisoformat (snd (run isoformat fromisoformat (take n ops) st)))"
proof -
  have kept: "consistent fromisoformat (snd (run isoformat fromisoformat (take n ops) st))"
    if c: "consistent fromisoformat st" and gd: "guarded isoformat fromisoformat ops st"
      and codec: "\<forall>dt. isoformat dt \<noteq> [] \<and> fromisoformat (isoformat dt) = Some (Naive dt)"
  proof -
    have cf: "collision_free (app_lists st)"
      using guarded_here [OF gd] by simp
    have g: "agreement fromisoformat (map_of (app_lists st)) (scheduler st)"
      using c consistent_agreement [OF cf] by simp
    have t: "guarded isoformat fromisoformat (take n ops) st"
      using gd by (rule guarded_take)
    from run_keeps_agreement [OF g t] codec
    show ?thesis
      using consistent_agreement by blast
  qed
  show ?thesis
    using run_unique [OF assms] kept by blast
qed

theorem agreement_kept_along_runs_witness:
  "job_ids_unique errands_app \<and>
   consistent sample_fromisoformat errands_app \<and>
   guarded sample_isoformat sample_fromisoformat
     [Rename (Some ''Errands'') ''Chores'', Schedule (Some ''Chores'') 9 4, Rearm 5,
      Fire ''reminder__Chores'' True True, Schedule (Some ''Chores'') 20 10,
      Cancel (Some ''Chores''), MarkDone (Some ''Chores''), Delete (Some ''Chores'') True]
     errands_app \<and>
   consistent sample_fromisoformat
     (snd (run sample_isoformat sample_fromisoformat
        (take 3 [Rename (Some ''Errands'') ''Chores'', Schedule (Some ''Chores'') 9 4, Rearm 5,
                 Fire ''reminder__Chores'' True True, Schedule (Some ''Chores'') 20 10,
                 Cancel (Some ''Chores''), MarkDone (Some ''Chores''),
                 Delete (Some ''Chores'') True]) errands_app)) \<and>
   scheduler
     (snd (run sample_isoformat sample_fromisoformat
        (take 3 [Rename (Some ''Errands'') ''Chores'', Schedule (Some ''Chores'') 9 4, Rearm 5,
                 Fire ''reminder__Chores'' True True, Schedule (Some ''Chores'') 20 10,
                 Cancel (Some ''Chores''), MarkDone (Some ''Chores''),
                 Delete (Some ''Chores'') True]) errands_app))
     = [\<lparr>job_id = ''reminder__Chores'', run_date = Naive 9, bound_title = ''Chores''\<rparr>] \<and>
   consistent sample_fromisoformat
     (snd (run sample_isoformat sample_fromisoformat
        (take 8 [Rename (Some ''Errands'') ''Chores'', Schedule (Some ''Chores'') 9 4, Rearm 5,
                 Fire ''reminder__Chores'' True True, Schedule (Some ''Chores'') 20 10,
                 Cancel (Some ''Chores''), MarkDone (Some ''Chores''),
                 Delete (Some ''Chores'') True]) errands_app)) \<and>
   job_ids_unique
     (snd (run sample_isoformat sample_fromisoformat
        (take 4 [Take ''reminder__Errands'', CallbackSend ''Errands'' True,
                 Schedule (Some ''Errands'') 9 4, CallbackClear ''Errands'' True])
        errands_app))"
proof -
  let ?ops = "[Rename (Some ''Errands'') ''Chores'', Schedule (Some ''Chores'') 9 4, Rearm 5,
      Fire ''reminder__Chores'' True True, Schedule (Some ''Chores'') 20 10,
      Cancel (Some ''Chores''), MarkDone (Some ''Chores''), Delete (Some ''Chores'') True]"
  have h0: "job_ids_unique errands_app"
    by code_simp
  have h1: "consistent sample_fromisoformat errands_app"
    by code_simp
  have h2: "guarded sample_isoformat sample_fromisoformat ?ops errands_app"
    by code_simp
  have h3: "\<forall>dt. sample_isoformat dt \<noteq> [] \<and>
      sample_fromisoformat (sample_isoformat dt) = Some (Naive dt)"
    using sample_codec by blast
  have s: "scheduler (snd (run sample_isoformat sample_fromisoformat (take 3 ?ops) errands_app))
     = [\<lparr>job_id = ''reminder__Chores'', run_date = Naive 9, bound_title = ''Chores''\<rparr>]"
    by code_simp
  show ?thesis
    using agreement_kept_along_runs [OF h0, of sample_isoformat sample_fromisoformat 3 ?ops]
      agreement_kept_along_runs [OF h0, of sample_isoformat sample_fromisoformat 8 ?ops]
      agreement_kept_along_runs [OF h0, of sample_isoformat sample_fromisoformat 4
        "[Take ''reminder__Errands'', CallbackSend ''Errands'' True,
          Schedule (Some ''Errands'') 9 4, CallbackClear ''Errands'' True]"]
      h0 h1 h2 h3 s
    by blast
qed

text \<open>C1 as stated fails, in four ways. The lists "a b" and "a\_b" have the same job id:
  scheduling a reminder for the first, then for the second, then clearing the second
  leaves the first list with its reminder set and no job pending under its job id. A
  rearm pass that runs while the pending job of a list is due clears the reminder and
  leaves the job. A due job that the scheduler drops as missed leaves the store with the
  reminder set and no job. And when the user schedules a new reminder between the
  removal of a due job and the run of its callable, the callable clears the new reminder
  while the new job stays pending.\<close>

theorem agreement_collision_counterexample:
  "consistent sample_fromisoformat twin_app \<and>
   map_of (app_lists (snd (run sample_isoformat sample_fromisoformat
       [Schedule (Some ''a b'') 5 0, Schedule (Some ''a_b'') 7 0, Cancel (Some ''a_b'')]
       twin_app))) ''a b'' = Some \<lparr>tasks = [], reminder = ''T00000''\<rparr> \<and>
   get_job (job_id_for ''a b'') (snd (run sample_isoformat sample_fromisoformat
       [Schedule (Some ''a b'') 5 0, Schedule (Some ''a_b'') 7 0, Cancel (Some ''a_b'')]
       twin_app)) = None \<and>
   \<not> consistent sample_fromisoformat (snd (run sample_isoformat sample_fromisoformat
       [Schedule (Some ''a b'') 5 0, Schedule (Some ''a_b'') 7 0, Cancel (Some ''a_b'')]
       twin_app)) \<and>
   consistent sample_fromisoformat errands_app \<and>
   run sample_isoformat sample_fromisoformat [Rearm 3] errands_app =
     (None, errands_app
        \<lparr>app_lists := [(''Errands'', \<lparr>tasks = [''Buy milk'', ''Pay bills''], reminder = []\<rparr>)]\<rparr>) \<and>
   get_job (job_id_for ''Errands'')
     (snd (run sample_isoformat sample_fromisoformat [Rearm 3] errands_app)) =
     Some \<lparr>job_id = ''reminder__Errands'', run_date = Naive 3, bound_title = ''Errands''\<rparr> \<and>
   run sample_isoformat sample_fromisoformat [Take ''reminder__Errands''] errands_app =
     (None, errands_app\<lparr>scheduler := []\<rparr>) \<and>
   map_of (app_lists (errands_app\<lparr>scheduler := []\<rparr>)) ''Errands'' =
     Some \<lparr>tasks = [''Buy milk'', ''Pay bills''], reminder = ''T000''\<rparr> \<and>
   \<not> consistent sample_fromisoformat (errands_app\<lparr>scheduler := []\<rparr>) \<and>
   run sample_isoformat sample_fromisoformat
     [Take ''reminder__Errands'', CallbackSend ''Errands'' True,
      Schedule (Some ''Errands'') 9 4, CallbackClear ''Errands'' True]
     errands_app =
     (None, errands_app
        \<lparr>app_lists := [(''Errands'', \<lparr>tasks = [''Buy milk'', ''Pay bills''], reminder = []\<rparr>)],
         scheduler := [\<lparr>job_id = ''reminder__Errands'', run_date = Naive 9,
                          bound_title = ''Errands''\<rparr>],
         notifications :=
           [(\<lparr>n_title = ''Reminder '' @ em_dash @ '' Errands'',
              n_message = ''You scheduled a reminder for '' @ apostrophe @ ''Errands''
                @ apostrophe @ ''.'' @ newline @ ''Tasks:'' @ newline @ ''- Buy milk''
                @ newline @ ''- Pay bills''\<rparr>, True)],
         saved := Some [(''Errands'', \<lparr>tasks = [''Buy milk'', ''Pay bills''], reminder = []\<rparr>)],
         dialogs := [Information ''Scheduled'', Information ''Saved'']\<rparr>)"
  by code_simp

end
